theory Spec2Isabelle
  imports Complex_Main
begin

section \<open>Python values\<close>

text \<open>
  A Python \<open>str\<close> is a sequence of Unicode code points, so it is modelled as a list of
  natural numbers (the code points); \<open>bytes\<close> likewise as a list of byte values.
  \<open>ascii\<close> embeds an ASCII literal of the source.  An exception is represented by its
  text \<open>str(e)\<close>.  A finite Python \<open>float\<close> is modelled by the real number it denotes.
\<close>

type_synonym str = "nat list"
type_synonym bytes = "nat list"
type_synonym exn = str

definition ascii :: "string \<Rightarrow> str" where
  "ascii s = map of_char s"

text \<open>\<open>s.startswith(p)\<close>\<close>

definition startswith :: "str \<Rightarrow> str \<Rightarrow> bool" where
  "startswith s p = (take (length p) s = p)"

text \<open>\<open>s.replace(old, new)\<close> for one-character \<open>old\<close> and \<open>new\<close>, as in
  \<open>title.replace(' ', '_')\<close>.\<close>

definition replace :: "nat \<Rightarrow> nat \<Rightarrow> str \<Rightarrow> str" where
  "replace old new s = map (\<lambda>c. if c = old then new else c) s"

text \<open>\<open>str.isspace\<close> on one code point, and \<open>s.strip()\<close>.\<close>

definition isspace :: "nat \<Rightarrow> bool" where
  "isspace c = ((9 \<le> c \<and> c \<le> 13) \<or> (28 \<le> c \<and> c \<le> 32) \<or> c = 133 \<or> c = 160 \<or>
     c = 5760 \<or> (8192 \<le> c \<and> c \<le> 8202) \<or> c = 8232 \<or> c = 8233 \<or> c = 8239 \<or>
     c = 8287 \<or> c = 12288)"

definition strip :: "str \<Rightarrow> str" where
  "strip s = rev (dropWhile isspace (rev (dropWhile isspace s)))"

text \<open>\<open>sep.join(xs)\<close>\<close>

fun join :: "str \<Rightarrow> str list \<Rightarrow> str" where
  "join sep [] = []"
| "join sep [x] = x"
| "join sep (x # y # ys) = x @ sep @ join sep (y # ys)"

text \<open>\<open>str(n)\<close> for a non-negative integer, and for any integer.\<close>

fun digits :: "nat \<Rightarrow> str" where
  "digits n = (if n < 10 then [48 + n] else digits (n div 10) @ [48 + n mod 10])"

declare digits.simps [simp del]

definition repr_int :: "int \<Rightarrow> str" where
  "repr_int i = (if i < 0 then 45 # digits (nat (- i)) else digits (nat i))"

subsection \<open>A set of strings\<close>

text \<open>
  A Python \<open>set\<close> keeps one copy of each element.  It is represented by the list of its
  elements in the order of their first insertion.  Iterating over a set of strings visits
  the elements in the order of the slots of its hash table, which depends on the (per
  process randomised) string hash: the model iterates in the order of a hash function that
  the environment supplies, elements of equal hash in insertion order.
\<close>

definition set_add :: "str list \<Rightarrow> str \<Rightarrow> str list" where
  "set_add s x = (if x \<in> set s then s else s @ [x])"

definition set_iter :: "(str \<Rightarrow> nat) \<Rightarrow> str list \<Rightarrow> str list" where
  "set_iter h s = sort_key h s"

subsection \<open>Parsed JSON values and dictionaries\<close>

datatype json =
    JNull
  | JBool bool
  | JInt int
  | JFloat real
  | JStr str
  | JArr "json list"
  | JObj "(str \<times> json) list"

text \<open>A \<open>dict\<close> with string keys is the list of its items in insertion order.
  \<open>d.get(k)\<close> is \<open>map_of d k\<close>; \<open>d[k] = v\<close> replaces the value of an existing key in
  place and appends a new key at the end.\<close>

fun dict_set :: "(str \<times> json) list \<Rightarrow> str \<Rightarrow> json \<Rightarrow> (str \<times> json) list" where
  "dict_set [] k v = [(k, v)]"
| "dict_set (p # ps) k v = (if fst p = k then (k, v) # ps else p # dict_set ps k v)"

text \<open>The truth value Python gives a parsed JSON value (\<open>not content\<close>).\<close>

fun truthy :: "json \<Rightarrow> bool" where
  "truthy JNull = False"
| "truthy (JBool b) = b"
| "truthy (JInt i) = (i \<noteq> 0)"
| "truthy (JFloat r) = (r \<noteq> 0)"
| "truthy (JStr s) = (s \<noteq> [])"
| "truthy (JArr xs) = (xs \<noteq> [])"
| "truthy (JObj kvs) = (kvs \<noteq> [])"

section \<open>\<open>json.dumps\<close>\<close>

text \<open>
  The encoder of the standard library.  \<open>hex4 n\<close> is \<open>'{0:04x}'.format(n)\<close> for
  \<open>n < 0x10000\<close>.  \<open>encode_basestring\<close> is the string encoder for \<open>ensure_ascii=False\<close>:
  it escapes the quote, the backslash and the control characters below \<open>0x20\<close> and leaves
  every other code point as it is.  \<open>encode_basestring_ascii\<close> is the one for
  \<open>ensure_ascii=True\<close> (the default): it also escapes every code point outside
  \<open>' '..'~'\<close>, those above \<open>0xFFFF\<close> as a surrogate pair.
\<close>

definition hexdigit :: "nat \<Rightarrow> nat" where
  "hexdigit d = (if d < 10 then 48 + d else 87 + d)"

definition hex4 :: "nat \<Rightarrow> str" where
  "hex4 n = [hexdigit (n div 4096 mod 16), hexdigit (n div 256 mod 16),
             hexdigit (n div 16 mod 16), hexdigit (n mod 16)]"

definition escape_dct :: "nat \<Rightarrow> str" where
  "escape_dct c =
     (if c = 92 then [92, 92]
      else if c = 34 then [92, 34]
      else if c = 8 then [92, 98]
      else if c = 12 then [92, 102]
      else if c = 10 then [92, 110]
      else if c = 13 then [92, 114]
      else if c = 9 then [92, 116]
      else [92, 117] @ hex4 c)"

definition escape_char :: "nat \<Rightarrow> str" where
  "escape_char c = (if c < 32 \<or> c = 92 \<or> c = 34 then escape_dct c else [c])"

definition encode_basestring :: "str \<Rightarrow> str" where
  "encode_basestring s = [34] @ concat (map escape_char s) @ [34]"

definition escape_char_ascii :: "nat \<Rightarrow> str" where
  "escape_char_ascii c =
     (if c = 92 \<or> c = 34 \<or> \<not> (32 \<le> c \<and> c \<le> 126) then
        (if c < 32 \<or> c = 92 \<or> c = 34 then escape_dct c
         else if c < 65536 then [92, 117] @ hex4 c
         else [92, 117] @ hex4 (55296 + (c - 65536) div 1024 mod 1024) @
              [92, 117] @ hex4 (56320 + (c - 65536) mod 1024))
      else [c])"

definition encode_basestring_ascii :: "str \<Rightarrow> str" where
  "encode_basestring_ascii s = [34] @ concat (map escape_char_ascii s) @ [34]"

definition encoder :: "bool \<Rightarrow> str \<Rightarrow> str" where
  "encoder ensure_ascii s =
     (if ensure_ascii then encode_basestring_ascii s else encode_basestring s)"

text \<open>
  The layout: with \<open>indent=None\<close> the items are separated by \<open>', '\<close> and nothing else is
  added; with \<open>indent=n\<close> they are separated by \<open>','\<close>, and every item starts on a line
  of its own, indented by \<open>n\<close> spaces per nesting level.  An empty list or dictionary is
  \<open>[]\<close> or \<open>{}\<close>.  \<open>float_repr\<close> is \<open>float.__repr__\<close>, a parameter of the model.
\<close>

definition newline_indent :: "nat option \<Rightarrow> nat \<Rightarrow> str" where
  "newline_indent indent lvl =
     (case indent of None \<Rightarrow> [] | Some n \<Rightarrow> 10 # replicate (n * lvl) 32)"

definition item_separator :: "nat option \<Rightarrow> nat \<Rightarrow> str" where
  "item_separator indent lvl =
     (case indent of None \<Rightarrow> [44, 32] | Some n \<Rightarrow> 44 # newline_indent indent lvl)"

fun iterencode :: "(real \<Rightarrow> str) \<Rightarrow> bool \<Rightarrow> nat option \<Rightarrow> nat \<Rightarrow> json \<Rightarrow> str" where
  "iterencode fr ea ind lvl JNull = ascii ''null''"
| "iterencode fr ea ind lvl (JBool b) = (if b then ascii ''true'' else ascii ''false'')"
| "iterencode fr ea ind lvl (JInt i) = repr_int i"
| "iterencode fr ea ind lvl (JFloat r) = fr r"
| "iterencode fr ea ind lvl (JStr s) = encoder ea s"
| "iterencode fr ea ind lvl (JArr xs) =
     (if xs = [] then [91, 93]
      else [91] @ newline_indent ind (Suc lvl) @
           join (item_separator ind (Suc lvl)) (map (iterencode fr ea ind (Suc lvl)) xs) @
           newline_indent ind lvl @ [93])"
| "iterencode fr ea ind lvl (JObj kvs) =
     (if kvs = [] then [123, 125]
      else [123] @ newline_indent ind (Suc lvl) @
           join (item_separator ind (Suc lvl))
             (map (\<lambda>kv. encoder ea (fst kv) @ [58, 32] @ iterencode fr ea ind (Suc lvl) (snd kv)) kvs) @
           newline_indent ind lvl @ [125])"

definition json_dumps :: "(real \<Rightarrow> str) \<Rightarrow> bool \<Rightarrow> nat option \<Rightarrow> json \<Rightarrow> str" where
  "json_dumps fr ensure_ascii indent obj = iterencode fr ensure_ascii indent 0 obj"

section \<open>The parsed page\<close>

text \<open>
  What \<open>BeautifulSoup(response.content, 'html.parser')\<close> returns: a tree of tags
  (name, attributes, contents) and text nodes; the soup itself is its root tag.
  \<open>descendants\<close> lists the nodes below a tag in document order.
\<close>

datatype node = Text str | Element str "(str \<times> str) list" "node list"

fun descendants :: "node \<Rightarrow> node list" where
  "descendants (Text s) = []"
| "descendants (Element n as cs) = concat (map (\<lambda>c. c # descendants c) cs)"

definition is_tag :: "str \<Rightarrow> node \<Rightarrow> bool" where
  "is_tag n x = (case x of Text s \<Rightarrow> False | Element t as cs \<Rightarrow> t = n)"

text \<open>\<open>tag.get(key)\<close>: the value of an attribute, \<open>None\<close> when the tag has none.\<close>

definition get_attr :: "node \<Rightarrow> str \<Rightarrow> str option" where
  "get_attr x k = (case x of Text s \<Rightarrow> None | Element t as cs \<Rightarrow> map_of as k)"

text \<open>\<open>el.find_all(n, ...)\<close> with a further test on the tag, and \<open>el.find(n)\<close>.\<close>

definition find_all :: "node \<Rightarrow> str \<Rightarrow> (node \<Rightarrow> bool) \<Rightarrow> node list" where
  "find_all el n p = filter (\<lambda>x. is_tag n x \<and> p x) (descendants el)"

definition find_first :: "node \<Rightarrow> str \<Rightarrow> node option" where
  "find_first el n = (case find_all el n (\<lambda>x. True) of [] \<Rightarrow> None | x # xs \<Rightarrow> Some x)"

text \<open>\<open>tag.get_text(strip=True)\<close>: the text nodes below the tag, each stripped, the
  empty ones dropped, concatenated.\<close>

definition node_string :: "node \<Rightarrow> str option" where
  "node_string x = (case x of Text s \<Rightarrow> Some s | Element t as cs \<Rightarrow> None)"

definition get_text :: "node \<Rightarrow> str" where
  "get_text x =
     concat (filter (\<lambda>s. s \<noteq> []) (map strip (List.map_filter node_string (descendants x))))"

section \<open>The environment and the state\<close>

text \<open>
  The environment holds what the program reads from the outside:
  \<^item> \<open>requests_get url\<close>: \<open>requests.get\<close> followed by \<open>raise_for_status\<close>, the
    \<open>RequestException\<close> or the content of the response;
  \<^item> \<open>BeautifulSoup\<close>: \<open>BeautifulSoup(response.content, 'html.parser')\<close>, the exception
    of the parser on markup it rejects, or the parsed page;
  \<^item> \<open>str_hash\<close>: the string hash that orders the iteration over a set;
  \<^item> \<open>fault k\<close>: whether the \<open>k\<close>-th call of the storage SDK raises, and with which text
    (missing or malformed connection string, network, service or encoding failure);
  \<^item> \<open>json_loads\<close>: \<open>json.loads\<close> on the bytes of a blob, the exception or the value;
  \<^item> \<open>sentiment\<close>: \<open>TextBlob(content).sentiment\<close>, the exception or polarity and
    subjectivity;
  \<^item> \<open>float_repr\<close>: \<open>float.__repr__\<close>.

  The state holds the blob store (container name to blob name to uploaded text), the
  number of SDK calls made, the URLs requested so far, in order, and the levels of the
  log records written so far.
\<close>

record env =
  requests_get :: "str \<Rightarrow> exn + bytes"
  BeautifulSoup :: "bytes \<Rightarrow> exn + node"
  str_hash :: "str \<Rightarrow> nat"
  fault :: "nat \<Rightarrow> exn option"
  json_loads :: "bytes \<Rightarrow> exn + json"
  sentiment :: "str \<Rightarrow> exn + (real \<times> real)"
  float_repr :: "real \<Rightarrow> str"

datatype level = INFO | WARNING | ERROR

record state =
  store :: "str \<rightharpoonup> (str \<rightharpoonup> str)"
  sdk_calls :: nat
  fetched :: "str list"
  logged :: "level list"

definition logging :: "level \<Rightarrow> state \<Rightarrow> state" where
  "logging l st = st\<lparr>logged := logged st @ [l]\<rparr>"

subsection \<open>The storage SDK\<close>

text \<open>
  Every call of the SDK counts, and raises when the environment says so.  A container is
  a map from blob names to contents; \<open>upload_blob(..., overwrite=True)\<close> replaces the
  blob of the same name.
\<close>

definition sdk_call :: "env \<Rightarrow> state \<Rightarrow> exn option \<times> state" where
  "sdk_call env st = (fault env (sdk_calls st), st\<lparr>sdk_calls := Suc (sdk_calls st)\<rparr>)"

definition from_connection_string :: "env \<Rightarrow> state \<Rightarrow> (exn + unit) \<times> state" where
  "from_connection_string env st =
     (case sdk_call env st of
        (Some e, s) \<Rightarrow> (Inl e, s)
      | (None, s) \<Rightarrow> (Inr (), s))"

definition container_exists :: "env \<Rightarrow> str \<Rightarrow> state \<Rightarrow> (exn + bool) \<times> state" where
  "container_exists env c st =
     (case sdk_call env st of
        (Some e, s) \<Rightarrow> (Inl e, s)
      | (None, s) \<Rightarrow> (Inr (store s c \<noteq> None), s))"

definition create_container :: "env \<Rightarrow> str \<Rightarrow> state \<Rightarrow> (exn + unit) \<times> state" where
  "create_container env c st =
     (case sdk_call env st of
        (Some e, s) \<Rightarrow> (Inl e, s)
      | (None, s) \<Rightarrow>
          (case store s c of
             Some blobs \<Rightarrow> (Inl (ascii ''ContainerAlreadyExists''), s)
           | None \<Rightarrow> (Inr (), s\<lparr>store := (store s)(c \<mapsto> Map.empty)\<rparr>)))"

definition upload_blob :: "env \<Rightarrow> str \<Rightarrow> str \<Rightarrow> str \<Rightarrow> state \<Rightarrow> (exn + unit) \<times> state" where
  "upload_blob env c blob_name blob_content st =
     (case sdk_call env st of
        (Some e, s) \<Rightarrow> (Inl e, s)
      | (None, s) \<Rightarrow>
          (case store s c of
             None \<Rightarrow> (Inl (ascii ''ContainerNotFound''), s)
           | Some blobs \<Rightarrow>
               (Inr (), s\<lparr>store := (store s)(c \<mapsto> blobs(blob_name \<mapsto> blob_content))\<rparr>)))"

text \<open>The opening lines that the three writers share: create the client, get the
  container client, create the container if it does not exist.\<close>

definition get_container_client :: "env \<Rightarrow> str \<Rightarrow> state \<Rightarrow> (exn + unit) \<times> state" where
  "get_container_client env c st =
     (case from_connection_string env st of
        (Inl e, s1) \<Rightarrow> (Inl e, s1)
      | (Inr u, s1) \<Rightarrow>
          (case container_exists env c s1 of
             (Inl e, s2) \<Rightarrow> (Inl e, s2)
           | (Inr ex, s2) \<Rightarrow> if \<not> ex then create_container env c s2 else (Inr (), s2)))"

section \<open>Function 1: the timer trigger\<close>

definition save_to_blob :: "env \<Rightarrow> json \<Rightarrow> str \<Rightarrow> state \<Rightarrow> state" where
  "save_to_blob env data blob_name st =
     (case (case get_container_client env (ascii ''articles-data'') st of
              (Inl e, s) \<Rightarrow> (Inl e, s)
            | (Inr u, s) \<Rightarrow>
                upload_blob env (ascii ''articles-data'') blob_name
                  (json_dumps (float_repr env) False (Some 4) data) s) of
        (Inl e, s) \<Rightarrow> logging ERROR s
      | (Inr u, s) \<Rightarrow> logging INFO s)"

definition article_data :: "str \<Rightarrow> str \<Rightarrow> str \<Rightarrow> json" where
  "article_data title content url =
     JObj [(ascii ''title'', JStr title), (ascii ''content'', JStr content),
           (ascii ''url'', JStr url)]"

text \<open>The title and the body that \<open>process_article\<close> extracts from the parsed page:
  the text of the first \<open>h1\<close>, and the texts of the paragraphs below the first
  \<open>article\<close> tag, joined by a space.\<close>

definition extract_title :: "node \<Rightarrow> str" where
  "extract_title soup =
     (case find_first soup (ascii ''h1'') of
        Some title_tag \<Rightarrow> get_text title_tag
      | None \<Rightarrow> ascii ''No Title Found'')"

definition extract_paragraphs :: "node \<Rightarrow> node list" where
  "extract_paragraphs soup =
     (case find_first soup (ascii ''article'') of
        Some article_body \<Rightarrow> find_all article_body (ascii ''p'') (\<lambda>x. True)
      | None \<Rightarrow> [])"

definition extract_content :: "node \<Rightarrow> str" where
  "extract_content soup = join (ascii '' '') (map get_text (extract_paragraphs soup))"

text \<open>\<open>process_article\<close> catches the exception of the request only: the parser is
  called after the \<open>try\<close> block, so its exception leaves the function.  The result is
  the exception that leaves it, if any, and the state it leaves behind.\<close>

definition process_article :: "env \<Rightarrow> str \<Rightarrow> state \<Rightarrow> (exn + unit) \<times> state" where
  "process_article env url st =
     (let st1 = st\<lparr>fetched := fetched st @ [url]\<rparr> in
      case requests_get env url of
        Inl e \<Rightarrow> (Inr (), logging ERROR st1)
      | Inr response \<Rightarrow>
          (case BeautifulSoup env response of
             Inl e \<Rightarrow> (Inl e, st1)
           | Inr soup \<Rightarrow>
               (let title = extract_title soup;
                    content = extract_content soup
                in if content = [] then (Inr (), logging WARNING st1)
                   else (Inr (),
                         save_to_blob env (article_data title content url)
                           (ascii ''article-'' @ replace 32 95 title @ ascii ''.json'') st1))))"

text \<open>The second loop of \<open>fetch_live_articles\<close>: an exception that leaves
  \<open>process_article\<close> leaves the loop.\<close>

fun process_links :: "env \<Rightarrow> str list \<Rightarrow> state \<Rightarrow> (exn + unit) \<times> state" where
  "process_links env [] st = (Inr (), st)"
| "process_links env (link # rest) st =
     (case process_article env link st of
        (Inl e, s) \<Rightarrow> (Inl e, s)
      | (Inr u, s) \<Rightarrow> process_links env rest s)"

text \<open>The test of \<open>find_all\<close> on the \<open>href\<close> attribute:
  \<open>lambda href: href and href.startswith('/news/articles')\<close>.\<close>

definition href_matches :: "node \<Rightarrow> bool" where
  "href_matches x =
     (case get_attr x (ascii ''href'') of
        None \<Rightarrow> False
      | Some href \<Rightarrow> href \<noteq> [] \<and> startswith href (ascii ''/news/articles''))"

text \<open>\<open>f"https://www.bbc.com{href}"\<close>\<close>

definition absolute_url :: "str \<Rightarrow> str" where
  "absolute_url href = ascii ''https://www.bbc.com'' @ href"

text \<open>The first loop of \<open>fetch_live_articles\<close>; \<open>article['href']\<close> raises \<open>KeyError\<close>
  on a tag without the attribute.\<close>

fun collect_links :: "node list \<Rightarrow> str list \<Rightarrow> exn + str list" where
  "collect_links [] article_links = Inr article_links"
| "collect_links (article # rest) article_links =
     (case get_attr article (ascii ''href'') of
        None \<Rightarrow> Inl (ascii ''KeyError'')
      | Some href \<Rightarrow>
          collect_links rest (set_add article_links (absolute_url href)))"

text \<open>The links of a parsed homepage in the order in which the second loop visits
  them.\<close>

definition article_links :: "env \<Rightarrow> node \<Rightarrow> exn + str list" where
  "article_links env soup =
     (let articles = find_all soup (ascii ''a'') href_matches in
      case collect_links (take 10 articles) [] of
        Inl e \<Rightarrow> Inl e
      | Inr links \<Rightarrow> Inr (set_iter (str_hash env) links))"

text \<open>The request of the homepage is inside a \<open>try\<close> block; the parser, the two loops
  are not.\<close>

definition fetch_live_articles :: "env \<Rightarrow> state \<Rightarrow> (exn + unit) \<times> state" where
  "fetch_live_articles env st =
     (let url = ascii ''https://www.bbc.com/news'';
          st1 = st\<lparr>fetched := fetched st @ [url]\<rparr> in
      case requests_get env url of
        Inl e \<Rightarrow> (Inr (), logging ERROR st1)
      | Inr response \<Rightarrow>
          (case BeautifulSoup env response of
             Inl e \<Rightarrow> (Inl e, st1)
           | Inr soup \<Rightarrow>
               (case article_links env soup of
                  Inl e \<Rightarrow> (Inl e, st1)
                | Inr links \<Rightarrow> process_links env links st1)))"

definition timer_trigger :: "env \<Rightarrow> bool \<Rightarrow> state \<Rightarrow> (exn + unit) \<times> state" where
  "timer_trigger env past_due st =
     (let st1 = (if past_due then logging INFO st else st) in
      case fetch_live_articles env (logging INFO st1) of
        (Inl e, s) \<Rightarrow> (Inl e, s)
      | (Inr u, s) \<Rightarrow> (Inr (), logging INFO (logging INFO s)))"

section \<open>Function 2: the blob trigger\<close>

definition save_to_blob_with_sentiment :: "env \<Rightarrow> json \<Rightarrow> str \<Rightarrow> state \<Rightarrow> state" where
  "save_to_blob_with_sentiment env data blob_name st =
     (case (case get_container_client env (ascii ''articles-sentiment'') st of
              (Inl e, s) \<Rightarrow> (Inl e, s)
            | (Inr u, s) \<Rightarrow>
                upload_blob env (ascii ''articles-sentiment'') blob_name
                  (json_dumps (float_repr env) False (Some 4) data) s) of
        (Inl e, s) \<Rightarrow> logging ERROR s
      | (Inr u, s) \<Rightarrow> logging INFO s)"

text \<open>\<open>"positive" if polarity > 0 else "negative"\<close>\<close>

definition overall :: "real \<Rightarrow> str" where
  "overall polarity = (if polarity > 0 then ascii ''positive'' else ascii ''negative'')"

definition sentiment_block :: "real \<Rightarrow> real \<Rightarrow> json" where
  "sentiment_block polarity subjectivity =
     JObj [(ascii ''polarity'', JFloat polarity),
           (ascii ''subjectivity'', JFloat subjectivity),
           (ascii ''overall'', JStr (overall polarity))]"

text \<open>The blob that triggers the function: its name and what \<open>read()\<close> returns.\<close>

record input_stream =
  name :: str
  read :: bytes

text \<open>
  The body of the \<open>try\<close> block.  \<open>article_data.get\<close> raises \<open>AttributeError\<close> when the
  parsed value is not a dictionary, and \<open>TextBlob(content)\<close> raises \<open>TypeError\<close> when
  \<open>content\<close> is not a string.
\<close>

definition blob_trigger_try :: "env \<Rightarrow> input_stream \<Rightarrow> state \<Rightarrow> (exn + unit) \<times> state" where
  "blob_trigger_try env myblob st =
     (case json_loads env (read myblob) of
        Inl e \<Rightarrow> (Inl e, st)
      | Inr parsed \<Rightarrow>
          (case parsed of
             JObj d \<Rightarrow>
               (let content = (case map_of d (ascii ''content'') of
                                 None \<Rightarrow> JStr []
                               | Some v \<Rightarrow> v)
                in if \<not> truthy content then (Inr (), logging WARNING st)
                   else
                     (case content of
                        JStr text \<Rightarrow>
                          (case sentiment env text of
                             Inl e \<Rightarrow> (Inl e, st)
                           | Inr (polarity, subjectivity) \<Rightarrow>
                               (Inr (),
                                logging INFO
                                  (save_to_blob_with_sentiment env
                                     (JObj (dict_set d (ascii ''sentiment'')
                                        (sentiment_block polarity subjectivity)))
                                     (ascii ''sentiment-'' @ name myblob) st)))
                      | _ \<Rightarrow> (Inl (ascii ''TypeError''), st)))
           | _ \<Rightarrow> (Inl (ascii ''AttributeError''), st)))"

definition BlobTrigger :: "env \<Rightarrow> input_stream \<Rightarrow> state \<Rightarrow> state" where
  "BlobTrigger env myblob st =
     (case blob_trigger_try env myblob (logging INFO st) of
        (Inl e, s) \<Rightarrow> logging ERROR s
      | (Inr u, s) \<Rightarrow> s)"

section \<open>Function 3: the fake articles\<close>

definition fake_article :: "nat \<Rightarrow> json" where
  "fake_article i =
     JObj [(ascii ''title'', JStr (ascii ''Fake Article '' @ digits (i + 1))),
           (ascii ''content'',
            JStr (ascii ''This is a generated fake article for scalability testing purposes.'')),
           (ascii ''url'', JStr (ascii ''https://fakeurl.com/article-'' @ digits (i + 1)))]"

text \<open>The loop over \<open>range(count)\<close>; an exception leaves it.\<close>

fun upload_fake_articles :: "env \<Rightarrow> nat list \<Rightarrow> state \<Rightarrow> (exn + unit) \<times> state" where
  "upload_fake_articles env [] st = (Inr (), st)"
| "upload_fake_articles env (i # rest) st =
     (case upload_blob env (ascii ''articles-data'')
             (ascii ''fake-article-'' @ digits (i + 1) @ ascii ''.json'')
             (json_dumps (float_repr env) True None (fake_article i)) st of
        (Inl e, s) \<Rightarrow> (Inl e, s)
      | (Inr u, s) \<Rightarrow> upload_fake_articles env rest s)"

record http_response =
  body :: str
  status_code :: nat

definition GenerateFakeArticles :: "env \<Rightarrow> state \<Rightarrow> http_response \<times> state" where
  "GenerateFakeArticles env st =
     (let count = 10 in
      case (case get_container_client env (ascii ''articles-data'') (logging INFO st) of
              (Inl e, s) \<Rightarrow> (Inl e, s)
            | (Inr u, s) \<Rightarrow> upload_fake_articles env [0..<count] s) of
        (Inl e, s) \<Rightarrow>
          (\<lparr>body = ascii ''An error occurred: '' @ e, status_code = 500\<rparr>, logging ERROR s)
      | (Inr u, s) \<Rightarrow>
          (\<lparr>body = ascii ''Successfully generated and uploaded '' @ digits count @
                   ascii '' fake articles.'',
            status_code = 200\<rparr>,
           logging INFO s))"

section \<open>Notions the properties are stated with\<close>

text \<open>The \<open>href\<close>s of the anchors of a page that match the article prefix, in document
  order; a list in the order of first occurrence of its elements; the blobs of a
  container, none when the container does not exist.\<close>

definition matching_hrefs :: "node \<Rightarrow> str list" where
  "matching_hrefs soup =
     List.map_filter (\<lambda>x. get_attr x (ascii ''href''))
       (find_all soup (ascii ''a'') href_matches)"

definition first_seen :: "str list \<Rightarrow> str list" where
  "first_seen xs = rev (remdups (rev xs))"

definition blobs :: "state \<Rightarrow> str \<Rightarrow> (str \<rightharpoonup> str)" where
  "blobs st c = (case store st c of None \<Rightarrow> Map.empty | Some m \<Rightarrow> m)"

text \<open>The name of the \<open>i\<close>-th fake article's blob; the blobs left by the uploads of the
  fake articles \<open>is\<close> into a container holding \<open>m\<close>; no storage call from the \<open>a\<close>-th up
  to, not including, the \<open>b\<close>-th raised; the call before the \<open>b\<close>-th is the first since
  the \<open>a\<close>-th that raised, with the text \<open>e\<close>.\<close>

definition fake_blob_name :: "nat \<Rightarrow> str" where
  "fake_blob_name i = ascii ''fake-article-'' @ digits (i + 1) @ ascii ''.json''"

definition clean :: "env \<Rightarrow> nat \<Rightarrow> nat \<Rightarrow> bool" where
  "clean env a b = (a \<le> b \<and> (\<forall>k. a \<le> k \<and> k < b \<longrightarrow> fault env k = None))"

definition raised :: "env \<Rightarrow> nat \<Rightarrow> nat \<Rightarrow> exn \<Rightarrow> bool" where
  "raised env a b e = (a < b \<and> clean env a (b - 1) \<and> fault env (b - 1) = Some e)"

definition fake_blobs :: "env \<Rightarrow> nat list \<Rightarrow> (str \<rightharpoonup> str) \<Rightarrow> (str \<rightharpoonup> str)" where
  "fake_blobs env is m =
     fold (\<lambda>i m. m(fake_blob_name i \<mapsto> json_dumps (float_repr env) True None (fake_article i))) is m"

text \<open>The outcome of a sequence of storage calls that started in \<open>st\<close>.\<close>

definition outcome :: "env \<Rightarrow> state \<Rightarrow> (exn + 'a) \<times> state \<Rightarrow> bool" where
  "outcome env st rs =
     (case fst rs of
        Inl e \<Rightarrow> raised env (sdk_calls st) (sdk_calls (snd rs)) e
      | Inr u \<Rightarrow> clean env (sdk_calls st) (sdk_calls (snd rs)))"

section \<open>Concrete inputs\<close>

text \<open>A homepage of fifteen article anchors with the hrefs \<open>/news/articles/1\<close> to
  \<open>/news/articles/15\<close>; a homepage of two; an environment in which every request fails,
  no storage call does, and strings hash to their length.\<close>

definition anchor :: "str \<Rightarrow> node" where
  "anchor href = Element (ascii ''a'') [(ascii ''href'', href)] []"

definition homepage15 :: node where
  "homepage15 = Element (ascii ''[document]'') []
     (map (\<lambda>k. anchor (ascii ''/news/articles/'' @ digits k)) [1..<16])"

definition homepage2 :: node where
  "homepage2 = Element (ascii ''[document]'') []
     [anchor (ascii ''/news/articles/bb''), anchor (ascii ''/news/articles/a'')]"

definition quiet_env :: env where
  "quiet_env = \<lparr>requests_get = (\<lambda>u. Inl []), BeautifulSoup = (\<lambda>b. Inr (Text [])),
     str_hash = length, fault = (\<lambda>k. None), json_loads = (\<lambda>b. Inl []),
     sentiment = (\<lambda>t. Inl []), float_repr = (\<lambda>r. [])\<rparr>"

text \<open>An article page with a title and paragraphs; an environment that serves a site
  given as a list of URLs and pages (any other URL fails), on working storage; the
  empty state; a site whose homepage links to a missing article, to two articles of the
  same title and to one without paragraphs; a homepage of twelve anchors whose first two
  hrefs are the same.\<close>

definition article_page :: "str \<Rightarrow> str list \<Rightarrow> node" where
  "article_page title paragraphs = Element (ascii ''[document]'') []
     [Element (ascii ''h1'') [] [Text title],
      Element (ascii ''article'') []
        (map (\<lambda>p. Element (ascii ''p'') [] [Text p]) paragraphs)]"

definition site_env :: "(str \<times> node) list \<Rightarrow> env" where
  "site_env site =
     \<lparr>requests_get = (\<lambda>u. case map_of site u of None \<Rightarrow> Inl (ascii ''404'') | Some page \<Rightarrow> Inr u),
      BeautifulSoup = (\<lambda>b. case map_of site b of
                             None \<Rightarrow> Inl (ascii ''ParserRejectedMarkup'')
                           | Some page \<Rightarrow> Inr page),
      str_hash = (\<lambda>s. 0), fault = (\<lambda>k. None), json_loads = (\<lambda>b. Inl []),
      sentiment = (\<lambda>t. Inl []), float_repr = (\<lambda>r. [])\<rparr>"

definition empty_state :: state where
  "empty_state = \<lparr>store = Map.empty, sdk_calls = 0, fetched = [], logged = []\<rparr>"

definition news_site :: "(str \<times> node) list" where
  "news_site =
     [(ascii ''https://www.bbc.com/news'',
       Element (ascii ''[document]'') []
         [anchor (ascii ''/news/articles/gone''), anchor (ascii ''/news/articles/one''),
          anchor (ascii ''/news/articles/blank''), anchor (ascii ''/news/articles/two'')]),
      (ascii ''https://www.bbc.com/news/articles/one'',
       article_page (ascii ''Hello World'') [ascii ''First.'', ascii ''Second.'']),
      (ascii ''https://www.bbc.com/news/articles/blank'', article_page (ascii ''Blank'') []),
      (ascii ''https://www.bbc.com/news/articles/two'',
       article_page (ascii ''Hello World'') [ascii ''Other.''])]"

text \<open>The same site behind a parser that rejects the markup of the article \<open>one\<close>.\<close>

definition rejecting_env :: env where
  "rejecting_env = (site_env news_site)
     \<lparr>BeautifulSoup := (\<lambda>b. if b = ascii ''https://www.bbc.com/news/articles/one''
                             then Inl (ascii ''ParserRejectedMarkup'')
                             else BeautifulSoup (site_env news_site) b)\<rparr>"

definition homepage12 :: node where
  "homepage12 = Element (ascii ''[document]'') []
     (map (\<lambda>k. anchor (ascii ''/news/articles/'' @ digits k)) (1 # [1..<12]))"

text \<open>An environment for the blob trigger: the bytes \<open>love\<close> parse to the record of
  title \<open>X\<close>, content \<open>I love this.\<close> and url \<open>u\<close>, the bytes \<open>empty\<close> to the
  same record with the empty content, anything else does not parse; the scorer returns
  polarity 0.8 and subjectivity 0.6.\<close>

definition enrich_env :: env where
  "enrich_env =
     \<lparr>requests_get = (\<lambda>u. Inl []), BeautifulSoup = (\<lambda>b. Inr (Text [])), str_hash = (\<lambda>s. 0),
      fault = (\<lambda>k. None),
      json_loads = (\<lambda>b.
        if b = ascii ''love'' then
          Inr (article_data (ascii ''X'') (ascii ''I love this.'') (ascii ''u''))
        else if b = ascii ''empty'' then Inr (article_data (ascii ''X'') [] (ascii ''u''))
        else Inl (ascii ''Expecting value'')),
      sentiment = (\<lambda>t. Inr (0.8, 0.6)),
      float_repr = (\<lambda>r. if r = 0.8 then ascii ''0.8'' else ascii ''0.6'')\<rparr>"

text \<open>An environment whose sixth storage call raises \<open>boom\<close>.\<close>

definition boom_env :: env where
  "boom_env = quiet_env\<lparr>fault := (\<lambda>k. if k = 5 then Some (ascii ''boom'') else None)\<rparr>"

section \<open>Discovery of the article links\<close>

lemma set_add_set: "set (set_add s x) = insert x (set s)"
  by (auto simp: set_add_def)

lemma set_add_distinct: "distinct s \<Longrightarrow> distinct (set_add s x)"
  by (simp add: set_add_def)

lemma map_filter_take:
  "\<forall>x\<in>set xs. f x \<noteq> None \<Longrightarrow> List.map_filter f (take n xs) = take n (List.map_filter f xs)"
proof (induction xs arbitrary: n)
  case Nil
  then show ?case by simp
next
  case (Cons x xs)
  then show ?case by (cases n) auto
qed

lemma href_matches_attr:
  "href_matches x \<Longrightarrow> \<exists>h. get_attr x (ascii ''href'') = Some h \<and> startswith h (ascii ''/news/articles'')"
  by (auto simp: href_matches_def split: option.splits)

lemma collect_links_Inr:
  "\<forall>x\<in>set xs. href_matches x \<Longrightarrow>
   \<exists>links. collect_links xs acc = Inr links \<and>
     set links = set acc \<union> absolute_url ` set (List.map_filter (\<lambda>x. get_attr x (ascii ''href'')) xs) \<and>
     (distinct acc \<longrightarrow> distinct links)"
proof (induction xs arbitrary: acc)
  case Nil
  then show ?case by simp
next
  case (Cons x xs)
  from Cons.prems have hx: "href_matches x" and rest: "\<forall>y\<in>set xs. href_matches y" by simp_all
  from href_matches_attr[OF hx] obtain h where h: "get_attr x (ascii ''href'') = Some h"
    by blast
  from Cons.IH[OF rest, of "set_add acc (absolute_url h)"]
  obtain links where L: "collect_links xs (set_add acc (absolute_url h)) = Inr links"
    "set links = set (set_add acc (absolute_url h)) \<union> absolute_url ` set (List.map_filter (\<lambda>x. get_attr x (ascii ''href'')) xs)"
    "distinct (set_add acc (absolute_url h)) \<longrightarrow> distinct links"
    by blast
  show ?case
    using L h
    by (auto simp: set_add_set set_add_distinct)
qed

lemma find_all_matches: "x \<in> set (find_all soup n p) \<Longrightarrow> p x"
  by (simp add: find_all_def)

lemma in_set_map_filter:
  "y \<in> set (List.map_filter f xs) \<longleftrightarrow> (\<exists>x\<in>set xs. f x = Some y)"
  by (induction xs) (auto split: option.splits)

lemma matching_hrefs_prefix:
  assumes "h \<in> set (matching_hrefs soup)"
  shows "startswith h (ascii ''/news/articles'')"
proof -
  from assms obtain x where x: "x \<in> set (find_all soup (ascii ''a'') href_matches)"
    and hx: "get_attr x (ascii ''href'') = Some h"
    by (auto simp: matching_hrefs_def in_set_map_filter)
  from x have "href_matches x" by (rule find_all_matches)
  with hx show ?thesis by (simp add: href_matches_def)
qed

lemma inj_absolute_url: "inj absolute_url"
  by (simp add: inj_on_def absolute_url_def)

lemma article_links_set:
  "\<exists>urls. article_links env soup = Inr urls \<and> distinct urls \<and>
     set urls = absolute_url ` set (take 10 (matching_hrefs soup))"
proof -
  let ?as = "find_all soup (ascii ''a'') href_matches"
  have all: "\<forall>x\<in>set ?as. href_matches x" by (auto dest: find_all_matches)
  then have all10: "\<forall>x\<in>set (take 10 ?as). href_matches x" by (auto dest: in_set_takeD)
  have some: "\<forall>x\<in>set ?as. get_attr x (ascii ''href'') \<noteq> None"
    using all href_matches_attr by fastforce
  from collect_links_Inr[OF all10, of "[]"] obtain links where
    L: "collect_links (take 10 ?as) [] = Inr links"
       "set links = absolute_url ` set (List.map_filter (\<lambda>x. get_attr x (ascii ''href'')) (take 10 ?as))"
       "distinct links" by auto
  have "article_links env soup = Inr (set_iter (str_hash env) links)"
    using L(1) by (simp add: article_links_def)
  moreover have "distinct (set_iter (str_hash env) links)" using L(3) by (simp add: set_iter_def)
  moreover have "set (set_iter (str_hash env) links) = absolute_url ` set (take 10 (matching_hrefs soup))"
    using L(2) map_filter_take[OF some, of 10] by (simp add: set_iter_def matching_hrefs_def)
  ultimately show ?thesis by blast
qed

lemma absolute_url_prefix:
  "startswith h (ascii ''/news/articles'') \<Longrightarrow> startswith (absolute_url h) (ascii ''https://www.bbc.com/news/articles'')"
  by (simp add: startswith_def absolute_url_def ascii_def)


text \<open>
  C1 (as amended).  For every parsed homepage, the links that \<open>fetch_live_articles\<close> goes
  through are at most 10, pairwise distinct, absolute URLs that start with the origin
  followed by the article prefix, and they are exactly the URLs of the first 10 matching
  anchors of the page in document order.  The order in which they are gone through is
  that of the iteration over a set, so it is left open.  When the page has at least 10
  matching anchors and the hrefs of the first 10 are pairwise distinct (as on a page of 15
  anchors with distinct hrefs), there are exactly 10 links.
\<close>

theorem article_links_bounded:
  "\<exists>urls. article_links env soup = Inr urls \<and> length urls \<le> 10 \<and> distinct urls \<and>
     set urls = absolute_url ` set (take 10 (matching_hrefs soup)) \<and>
     (\<forall>u\<in>set urls. startswith u (ascii ''https://www.bbc.com/news/articles'')) \<and>
     (10 \<le> length (matching_hrefs soup) \<and> distinct (take 10 (matching_hrefs soup))
        \<longrightarrow> length urls = 10)"
proof -
  let ?hs = "take 10 (matching_hrefs soup)"
  from article_links_set[of env soup] obtain urls where
    U: "article_links env soup = Inr urls" "distinct urls" "set urls = absolute_url ` set ?hs"
    by blast
  have card: "card (set urls) = card (set ?hs)"
    using U(3) by (simp add: card_image inj_absolute_url[THEN inj_on_subset])
  have len: "length urls = card (set ?hs)"
    using U(2) card by (simp add: distinct_card)
  have "card (set ?hs) \<le> length ?hs" by (rule card_length)
  then have le: "length urls \<le> 10" using len by simp
  have pre: "\<forall>u\<in>set urls. startswith u (ascii ''https://www.bbc.com/news/articles'')"
    using U(3) by (auto dest!: in_set_takeD matching_hrefs_prefix intro: absolute_url_prefix)
  have full: "10 \<le> length (matching_hrefs soup) \<and> distinct ?hs \<longrightarrow> length urls = 10"
    using len by (auto simp: distinct_card)
  from U le pre full show ?thesis by blast
qed

theorem article_links_bounded_witness:
  "\<exists>urls. article_links quiet_env homepage15 = Inr urls \<and> length urls = 10"
proof -
  have "10 \<le> length (matching_hrefs homepage15) \<and> distinct (take 10 (matching_hrefs homepage15))"
    by code_simp
  with article_links_bounded[of quiet_env homepage15] show ?thesis by blast
qed

text \<open>
  C1 as stated also asks for first-seen document order.  On the homepage with the anchors
  \<open>/news/articles/bb\<close> and \<open>/news/articles/a\<close>, in an environment where the iteration
  over the set visits the shorter string first, the second anchor's link comes before
  the first anchor's.
\<close>

theorem article_links_order_counterexample:
  "article_links quiet_env homepage2 \<noteq>
     Inr (first_seen (map absolute_url (take 10 (matching_hrefs homepage2))))"
  by code_simp


section \<open>The overall sentiment\<close>

text \<open>
  C2.  The overall sentiment derived from a polarity is \<open>positive\<close> if and only if the
  polarity is greater than 0, and \<open>negative\<close> if and only if it is 0 or less; in
  particular polarity 0 gives \<open>negative\<close>.
\<close>

theorem overall_positive_iff:
  "(overall polarity = ascii ''positive'') = (0 < polarity) \<and>
   (overall polarity = ascii ''negative'') = (polarity \<le> 0) \<and>
   overall 0 = ascii ''negative''"
  by (simp add: overall_def ascii_def)

section \<open>The storage calls\<close>

lemma logging_frame [simp]:
  "store (logging l st) = store st" "sdk_calls (logging l st) = sdk_calls st"
  "fetched (logging l st) = fetched st" "blobs (logging l st) c = blobs st c"
  by (simp_all add: logging_def blobs_def)

lemma blobs_fetched_update [simp]: "blobs (st\<lparr>fetched := f\<rparr>) c = blobs st c"
  by (simp add: blobs_def)

lemma get_container_client_frame:
  assumes "get_container_client env c st = (r, s)"
  shows "fetched s = fetched st" "logged s = logged st" "blobs s c' = blobs st c'"
    "c' \<noteq> c \<Longrightarrow> store s c' = store st c'"
    "r = Inr u \<Longrightarrow> store s c \<noteq> None"
    "r = Inl e \<Longrightarrow> store s = store st"
  using assms
  by (auto simp: get_container_client_def from_connection_string_def container_exists_def
      create_container_def sdk_call_def blobs_def split: option.splits if_splits)

lemma get_container_client_ok:
  assumes "fault env = (\<lambda>k. None)"
  shows "\<exists>s. get_container_client env c st = (Inr (), s) \<and> store s c = Some (blobs st c) \<and>
     (\<forall>c'. c' \<noteq> c \<longrightarrow> store s c' = store st c') \<and> fetched s = fetched st"
  using assms
  by (auto simp: get_container_client_def from_connection_string_def container_exists_def
      create_container_def sdk_call_def blobs_def split: option.splits if_splits)

lemma upload_blob_frame:
  assumes "upload_blob env c b v st = (r, s)"
  shows "fetched s = fetched st" "logged s = logged st"
    "c' \<noteq> c \<Longrightarrow> store s c' = store st c'"
    "r = Inl e \<Longrightarrow> store s = store st"
    "r = Inr u \<Longrightarrow> store s = (store st)(c \<mapsto> (blobs st c)(b \<mapsto> v))"
  using assms
  by (auto simp: upload_blob_def sdk_call_def blobs_def split: option.splits if_splits)

lemma upload_blob_ok:
  assumes "fault env = (\<lambda>k. None)" "store st c \<noteq> None"
  shows "upload_blob env c b v st = (Inr (), st\<lparr>sdk_calls := Suc (sdk_calls st), store := (store st)(c \<mapsto> (blobs st c)(b \<mapsto> v))\<rparr>)"
  using assms
  by (auto simp: upload_blob_def sdk_call_def blobs_def split: option.splits if_splits)

section \<open>Ingestion of one article\<close>

lemma save_to_blob_frame:
  "fetched (save_to_blob env d b st) = fetched st"
  "c' \<noteq> ascii ''articles-data'' \<Longrightarrow> store (save_to_blob env d b st) c' = store st c'"
proof -
  obtain r s where g: "get_container_client env (ascii ''articles-data'') st = (r, s)"
    by (cases "get_container_client env (ascii ''articles-data'') st")
  obtain r' s' where u: "upload_blob env (ascii ''articles-data'') b (json_dumps (float_repr env) False (Some 4) d) s = (r', s')"
    by (cases "upload_blob env (ascii ''articles-data'') b (json_dumps (float_repr env) False (Some 4) d) s")
  show "fetched (save_to_blob env d b st) = fetched st"
    using get_container_client_frame(1)[OF g] upload_blob_frame(1)[OF u] g u
    by (auto simp: save_to_blob_def split: sum.splits)
  show "c' \<noteq> ascii ''articles-data'' \<Longrightarrow> store (save_to_blob env d b st) c' = store st c'"
    using get_container_client_frame(4)[OF g] upload_blob_frame(3)[OF u] g u
    by (auto simp: save_to_blob_def split: sum.splits)
qed

lemma save_to_blob_blobs:
  "blobs (save_to_blob env d b st) (ascii ''articles-data'') = blobs st (ascii ''articles-data'') \<or>
   blobs (save_to_blob env d b st) (ascii ''articles-data'') =
     (blobs st (ascii ''articles-data''))(b \<mapsto> json_dumps (float_repr env) False (Some 4) d)"
proof -
  obtain r s where g: "get_container_client env (ascii ''articles-data'') st = (r, s)"
    by (cases "get_container_client env (ascii ''articles-data'') st")
  obtain r' s' where u: "upload_blob env (ascii ''articles-data'') b (json_dumps (float_repr env) False (Some 4) d) s = (r', s')"
    by (cases "upload_blob env (ascii ''articles-data'') b (json_dumps (float_repr env) False (Some 4) d) s")
  have b1: "blobs s (ascii ''articles-data'') = blobs st (ascii ''articles-data'')"
    by (rule get_container_client_frame(3)[OF g])
  show ?thesis
  proof (cases r)
    case (Inl e)
    then show ?thesis using g b1 by (simp add: save_to_blob_def)
  next
    case (Inr x)
    show ?thesis
    proof (cases r')
      case (Inl e)
      then have "store s' = store s" using upload_blob_frame(4)[OF u] by simp
      then have "blobs s' (ascii ''articles-data'') = blobs s (ascii ''articles-data'')"
        by (simp add: blobs_def)
      then show ?thesis using g u Inr Inl b1 by (simp add: save_to_blob_def)
    next
      case (Inr y)
      from upload_blob_frame(5)[OF u Inr]
      have "blobs s' (ascii ''articles-data'') =
        (blobs s (ascii ''articles-data''))(b \<mapsto> json_dumps (float_repr env) False (Some 4) d)"
        by (simp add: blobs_def)
      then show ?thesis using g u \<open>r = Inr x\<close> Inr b1 by (simp add: save_to_blob_def)
    qed
  qed
qed

lemma save_to_blob_ok:
  assumes "fault env = (\<lambda>k. None)"
  shows "store (save_to_blob env d b st) =
     (store st)(ascii ''articles-data'' \<mapsto>
        (blobs st (ascii ''articles-data''))(b \<mapsto> json_dumps (float_repr env) False (Some 4) d))"
proof -
  from get_container_client_ok[OF assms, of "ascii ''articles-data''" st]
  obtain s where g: "get_container_client env (ascii ''articles-data'') st = (Inr (), s)"
    and s1: "store s (ascii ''articles-data'') = Some (blobs st (ascii ''articles-data''))"
    and s2: "\<forall>c'. c' \<noteq> ascii ''articles-data'' \<longrightarrow> store s c' = store st c'"
    by blast
  have ne: "store s (ascii ''articles-data'') \<noteq> None" using s1 by simp
  have bs: "blobs s (ascii ''articles-data'') = blobs st (ascii ''articles-data'')"
    using s1 by (simp add: blobs_def)
  have "store (save_to_blob env d b st) =
      (store s)(ascii ''articles-data'' \<mapsto>
        (blobs s (ascii ''articles-data''))(b \<mapsto> json_dumps (float_repr env) False (Some 4) d))"
    using g upload_blob_ok[OF assms ne] by (simp add: save_to_blob_def)
  also have "\<dots> = (store st)(ascii ''articles-data'' \<mapsto>
        (blobs st (ascii ''articles-data''))(b \<mapsto> json_dumps (float_repr env) False (Some 4) d))"
    using s2 bs by (auto simp: fun_eq_iff)
  finally show ?thesis .
qed

lemma process_article_fetched:
  "fetched (snd (process_article env url st)) = fetched st @ [url]"
  by (simp add: process_article_def Let_def save_to_blob_frame split: sum.splits)

lemma process_article_fetch_error:
  "requests_get env url = Inl e \<Longrightarrow>
   process_article env url st = (Inr (), logging ERROR (st\<lparr>fetched := fetched st @ [url]\<rparr>))"
  by (simp add: process_article_def)

lemma process_article_rejected:
  "requests_get env url = Inr response \<Longrightarrow> BeautifulSoup env response = Inl e \<Longrightarrow>
   process_article env url st = (Inl e, st\<lparr>fetched := fetched st @ [url]\<rparr>)"
  by (simp add: process_article_def)

lemma process_article_empty:
  "requests_get env url = Inr response \<Longrightarrow> BeautifulSoup env response = Inr soup \<Longrightarrow>
   extract_content soup = [] \<Longrightarrow>
   process_article env url st =
     (Inr (), logging WARNING (st\<lparr>fetched := fetched st @ [url]\<rparr>))"
  by (simp add: process_article_def)

lemma process_article_saved:
  "requests_get env url = Inr response \<Longrightarrow> BeautifulSoup env response = Inr soup \<Longrightarrow>
   extract_content soup \<noteq> [] \<Longrightarrow>
   process_article env url st =
     (Inr (),
      save_to_blob env (article_data (extract_title soup) (extract_content soup) url)
        (ascii ''article-'' @ replace 32 95 (extract_title soup) @ ascii ''.json'')
        (st\<lparr>fetched := fetched st @ [url]\<rparr>))"
  by (simp add: process_article_def Let_def)

text \<open>The exception that leaves \<open>process_article\<close> is the parser's, and the only one.\<close>

lemma process_article_raises:
  "fst (process_article env url st) = Inl e \<longleftrightarrow>
   (\<exists>response. requests_get env url = Inr response \<and> BeautifulSoup env response = Inl e)"
  by (auto simp: process_article_def Let_def split: sum.splits)

lemma process_article_other_containers:
  "c' \<noteq> ascii ''articles-data'' \<Longrightarrow> store (snd (process_article env url st)) c' = store st c'"
  by (simp add: process_article_def Let_def save_to_blob_frame split: sum.splits)

lemma process_article_blobs:
  "blobs (snd (process_article env url st)) (ascii ''articles-data'') =
     blobs st (ascii ''articles-data'') \<or>
   (\<exists>response soup. requests_get env url = Inr response \<and>
      BeautifulSoup env response = Inr soup \<and> extract_content soup \<noteq> [] \<and>
      blobs (snd (process_article env url st)) (ascii ''articles-data'') =
        (blobs st (ascii ''articles-data''))
          (ascii ''article-'' @ replace 32 95 (extract_title soup) @ ascii ''.json'' \<mapsto>
           json_dumps (float_repr env) False (Some 4)
             (article_data (extract_title soup) (extract_content soup) url)))"
proof (cases "requests_get env url")
  case (Inl e)
  then show ?thesis by (simp add: process_article_fetch_error)
next
  case (Inr response)
  note rq = this
  show ?thesis
  proof (cases "BeautifulSoup env response")
    case (Inl e)
    then show ?thesis using rq by (simp add: process_article_rejected)
  next
    case (Inr soup)
    show ?thesis
    proof (cases "extract_content soup = []")
      case True
      then show ?thesis using rq Inr by (simp add: process_article_empty)
    next
      case False
      let ?st1 = "st\<lparr>fetched := fetched st @ [url]\<rparr>"
      let ?d = "article_data (extract_title soup) (extract_content soup) url"
      let ?b = "ascii ''article-'' @ replace 32 95 (extract_title soup) @ ascii ''.json''"
      have eq: "snd (process_article env url st) = save_to_blob env ?d ?b ?st1"
        using rq Inr False by (simp add: process_article_saved)
      from save_to_blob_blobs[of env ?d ?b ?st1] show ?thesis
        using rq Inr False unfolding eq by auto
    qed
  qed
qed

lemma process_article_ok:
  assumes "requests_get env url = Inr response"
    and "BeautifulSoup env response = Inr soup"
    and "extract_content soup \<noteq> []"
    and "fault env = (\<lambda>k. None)"
  shows "store (snd (process_article env url st)) =
     (store st)(ascii ''articles-data'' \<mapsto>
        (blobs st (ascii ''articles-data''))
          (ascii ''article-'' @ replace 32 95 (extract_title soup) @ ascii ''.json'' \<mapsto>
           json_dumps (float_repr env) False (Some 4)
             (article_data (extract_title soup) (extract_content soup) url)))"
  using save_to_blob_ok[OF assms(4)]
  by (simp add: process_article_saved[OF assms(1,2,3)] blobs_def)

lemmas page_defs = extract_content_def extract_paragraphs_def extract_title_def find_first_def
  find_all_def article_page_def is_tag_def get_text_def node_string_def strip_def isspace_def
  anchor_def

lemma ascii_eq_Nil [simp]: "(ascii s = []) = (s = [])"
  by (simp add: ascii_def)

lemma news_one:
  "requests_get (site_env news_site) (ascii ''https://www.bbc.com/news/articles/one'') =
     Inr (ascii ''https://www.bbc.com/news/articles/one'')"
  "BeautifulSoup (site_env news_site) (ascii ''https://www.bbc.com/news/articles/one'') =
     Inr (article_page (ascii ''Hello World'') [ascii ''First.'', ascii ''Second.''])"
  by (simp_all add: site_env_def news_site_def ascii_def)

lemma news_blank:
  "requests_get (site_env news_site) (ascii ''https://www.bbc.com/news/articles/blank'') =
     Inr (ascii ''https://www.bbc.com/news/articles/blank'')"
  "BeautifulSoup (site_env news_site) (ascii ''https://www.bbc.com/news/articles/blank'') =
     Inr (article_page (ascii ''Blank'') [])"
  by (simp_all add: site_env_def news_site_def ascii_def)

lemma news_two:
  "requests_get (site_env news_site) (ascii ''https://www.bbc.com/news/articles/two'') =
     Inr (ascii ''https://www.bbc.com/news/articles/two'')"
  "BeautifulSoup (site_env news_site) (ascii ''https://www.bbc.com/news/articles/two'') =
     Inr (article_page (ascii ''Hello World'') [ascii ''Other.''])"
  by (simp_all add: site_env_def news_site_def ascii_def)

lemma news_gone:
  "requests_get (site_env news_site) (ascii ''https://www.bbc.com/news/articles/gone'') =
     Inl (ascii ''404'')"
  by (simp add: site_env_def news_site_def ascii_def)

lemma site_env_fault: "fault (site_env site) = (\<lambda>k. None)"
  by (simp add: site_env_def)

lemma page_one:
  "extract_title (article_page (ascii ''Hello World'') [ascii ''First.'', ascii ''Second.'']) = ascii ''Hello World''"
  "extract_content (article_page (ascii ''Hello World'') [ascii ''First.'', ascii ''Second.'']) = ascii ''First. Second.''"
  by (simp_all add: page_defs ascii_def)

lemma page_two:
  "extract_title (article_page (ascii ''Hello World'') [ascii ''Other.'']) = ascii ''Hello World''"
  "extract_content (article_page (ascii ''Hello World'') [ascii ''Other.'']) = ascii ''Other.''"
  by (simp_all add: page_defs ascii_def)

lemma page_blank:
  "extract_content (article_page (ascii ''Blank'') []) = []"
  by (simp add: page_defs ascii_def)

text \<open>
  C3.  Every blob that \<open>process_article\<close> writes to the container \<open>articles-data\<close> is the
  serialisation of a record whose content is not empty.  When the page is fetched, the
  parser returns it and the extraction yields the empty content, \<open>process_article\<close>
  returns with the store as it was and no storage call made; and a page with no
  paragraph below an article tag yields the empty content.
\<close>

theorem written_content_nonempty:
  "(\<forall>b v. blobs (snd (process_article env url st)) (ascii ''articles-data'') b = Some v \<and>
          blobs st (ascii ''articles-data'') b \<noteq> Some v \<longrightarrow>
          (\<exists>title content. content \<noteq> [] \<and>
             v = json_dumps (float_repr env) False (Some 4) (article_data title content url))) \<and>
   (\<forall>response soup. requests_get env url = Inr response \<and>
          BeautifulSoup env response = Inr soup \<and> extract_content soup = [] \<longrightarrow>
          fst (process_article env url st) = Inr () \<and>
          store (snd (process_article env url st)) = store st \<and>
          sdk_calls (snd (process_article env url st)) = sdk_calls st) \<and>
   (extract_paragraphs soup' = [] \<longrightarrow> extract_content soup' = [])"
proof (intro conjI allI impI)
  fix b v
  assume a: "blobs (snd (process_article env url st)) (ascii ''articles-data'') b = Some v \<and>
          blobs st (ascii ''articles-data'') b \<noteq> Some v"
  from process_article_blobs[of env url st]
  show "\<exists>title content. content \<noteq> [] \<and>
             v = json_dumps (float_repr env) False (Some 4) (article_data title content url)"
  proof
    assume "blobs (snd (process_article env url st)) (ascii ''articles-data'') =
      blobs st (ascii ''articles-data'')"
    with a show ?thesis by simp
  next
    assume "\<exists>response soup. requests_get env url = Inr response \<and>
      BeautifulSoup env response = Inr soup \<and> extract_content soup \<noteq> [] \<and>
      blobs (snd (process_article env url st)) (ascii ''articles-data'') =
        (blobs st (ascii ''articles-data''))
          (ascii ''article-'' @ replace 32 95 (extract_title soup) @ ascii ''.json'' \<mapsto>
           json_dumps (float_repr env) False (Some 4)
             (article_data (extract_title soup) (extract_content soup) url))"
    then obtain soup where r: "extract_content soup \<noteq> []"
      and eq: "blobs (snd (process_article env url st)) (ascii ''articles-data'') =
        (blobs st (ascii ''articles-data''))
          (ascii ''article-'' @ replace 32 95 (extract_title soup) @ ascii ''.json'' \<mapsto>
           json_dumps (float_repr env) False (Some 4)
             (article_data (extract_title soup) (extract_content soup) url))"
      by (elim exE conjE)
    have v: "v = json_dumps (float_repr env) False (Some 4)
        (article_data (extract_title soup) (extract_content soup) url)"
      using a unfolding eq by (simp split: if_splits)
    show ?thesis
      by (rule exI[of _ "extract_title soup"], rule exI[of _ "extract_content soup"])
        (simp add: r v)
  qed
next
  fix response soup
  assume "requests_get env url = Inr response \<and>
          BeautifulSoup env response = Inr soup \<and> extract_content soup = []"
  then have eq: "process_article env url st =
      (Inr (), logging WARNING (st\<lparr>fetched := fetched st @ [url]\<rparr>))"
    by (simp add: process_article_empty)
  show "fst (process_article env url st) = Inr ()" unfolding eq by simp
  show "store (snd (process_article env url st)) = store st" unfolding eq by simp
  show "sdk_calls (snd (process_article env url st)) = sdk_calls st" unfolding eq by simp
next
  assume "extract_paragraphs soup' = []"
  then show "extract_content soup' = []" by (simp add: extract_content_def)
qed

theorem written_content_nonempty_witness:
  "store (snd (process_article (site_env news_site)
       (ascii ''https://www.bbc.com/news/articles/blank'') empty_state))
     = store empty_state \<and>
   (\<exists>title content. content \<noteq> [] \<and>
      blobs (snd (process_article (site_env news_site)
           (ascii ''https://www.bbc.com/news/articles/one'') empty_state))
        (ascii ''articles-data'') (ascii ''article-Hello_World.json'') =
      Some (json_dumps (float_repr (site_env news_site)) False (Some 4)
             (article_data title content (ascii ''https://www.bbc.com/news/articles/one''))))"
proof -
  let ?env = "site_env news_site"
  let ?blank = "ascii ''https://www.bbc.com/news/articles/blank''"
  let ?one = "ascii ''https://www.bbc.com/news/articles/one''"
  let ?p1 = "article_page (ascii ''Hello World'') [ascii ''First.'', ascii ''Second.'']"
  let ?v = "json_dumps (float_repr ?env) False (Some 4)
          (article_data (ascii ''Hello World'') (ascii ''First. Second.'') ?one)"
  have h1: "requests_get ?env ?blank = Inr ?blank \<and>
      BeautifulSoup ?env ?blank = Inr (article_page (ascii ''Blank'') []) \<and>
      extract_content (article_page (ascii ''Blank'') []) = []"
    by (simp add: news_blank page_blank)
  have ne: "extract_content ?p1 \<noteq> []"
    by (simp add: page_one)
  have st: "store (snd (process_article ?env ?one empty_state)) =
      (store empty_state)(ascii ''articles-data'' \<mapsto>
        (blobs empty_state (ascii ''articles-data''))
          (ascii ''article-'' @ replace 32 95 (ascii ''Hello World'') @ ascii ''.json'' \<mapsto> ?v))"
    using process_article_ok[OF news_one(1) news_one(2) ne site_env_fault, of empty_state]
    unfolding page_one .
  have nm: "ascii ''article-'' @ replace 32 95 (ascii ''Hello World'') @ ascii ''.json'' = ascii ''article-Hello_World.json''"
    by (simp add: ascii_def replace_def)
  have h2: "blobs (snd (process_article ?env ?one empty_state)) (ascii ''articles-data'')
        (ascii ''article-Hello_World.json'') = Some ?v \<and>
     blobs empty_state (ascii ''articles-data'') (ascii ''article-Hello_World.json'') \<noteq> Some ?v"
    unfolding blobs_def st nm by (simp add: empty_state_def)
  from written_content_nonempty[of ?env ?blank empty_state "Text []"] h1
  have c1: "store (snd (process_article ?env ?blank empty_state)) = store empty_state" by blast
  from written_content_nonempty[of ?env ?one empty_state "Text []"] h2
  obtain title content where "content \<noteq> []"
      "?v = json_dumps (float_repr ?env) False (Some 4) (article_data title content ?one)" by blast
  with h2 have "\<exists>title content. content \<noteq> [] \<and>
      blobs (snd (process_article ?env ?one empty_state)) (ascii ''articles-data'')
        (ascii ''article-Hello_World.json'') =
      Some (json_dumps (float_repr ?env) False (Some 4) (article_data title content ?one))"
    by auto
  with c1 show ?thesis by (rule conjI)
qed

section \<open>The loop over the links\<close>

lemma process_links_step:
  "fst (process_article env url st) = Inr () \<Longrightarrow>
   process_links env (url # rest) st = process_links env rest (snd (process_article env url st))"
  by (cases "process_article env url st") (auto split: sum.splits)

lemma process_links_abort:
  "fst (process_article env url st) = Inl e \<Longrightarrow>
   process_links env (url # rest) st = (Inl e, snd (process_article env url st))"
  by (cases "process_article env url st") (auto split: sum.splits)

lemma process_article_cases:
  "fst (process_article env url st) = Inr () \<or> (\<exists>e. fst (process_article env url st) = Inl e)"
  by (cases "fst (process_article env url st)") auto

lemma process_links_prefix:
  "\<exists>k\<le>length urls. fetched (snd (process_links env urls st)) = fetched st @ take k urls"
proof (induction urls arbitrary: st)
  case Nil
  then show ?case by simp
next
  case (Cons url rest)
  from process_article_cases[of env url st] show ?case
  proof (elim disjE exE)
    assume ok: "fst (process_article env url st) = Inr ()"
    from Cons.IH[of "snd (process_article env url st)"] obtain k where
      k: "k \<le> length rest"
      "fetched (snd (process_links env rest (snd (process_article env url st)))) =
         fetched (snd (process_article env url st)) @ take k rest" by blast
    have "Suc k \<le> length (url # rest)" using k(1) by simp
    moreover have "fetched (snd (process_links env (url # rest) st)) =
        fetched st @ take (Suc k) (url # rest)"
      unfolding process_links_step[OF ok] k(2) by (simp add: process_article_fetched)
    ultimately show ?thesis by blast
  next
    fix e assume ab: "fst (process_article env url st) = Inl e"
    have "Suc 0 \<le> length (url # rest)" by simp
    moreover have "fetched (snd (process_links env (url # rest) st)) =
        fetched st @ take (Suc 0) (url # rest)"
      unfolding process_links_abort[OF ab] by (simp add: process_article_fetched)
    ultimately show ?thesis by blast
  qed
qed

lemma process_links_all:
  "\<forall>u\<in>set urls. \<forall>r. requests_get env u = Inr r \<longrightarrow> (\<exists>page. BeautifulSoup env r = Inr page) \<Longrightarrow>
   fst (process_links env urls st) = Inr () \<and>
   fetched (snd (process_links env urls st)) = fetched st @ urls"
proof (induction urls arbitrary: st)
  case Nil
  then show ?case by simp
next
  case (Cons url rest)
  have "\<not> (\<exists>e. fst (process_article env url st) = Inl e)"
  proof
    assume "\<exists>e. fst (process_article env url st) = Inl e"
    then obtain e where "fst (process_article env url st) = Inl e" ..
    then obtain response where "requests_get env url = Inr response"
      "BeautifulSoup env response = Inl e"
      unfolding process_article_raises by blast
    with Cons.prems show False by auto
  qed
  with process_article_cases[of env url st]
  have ok: "fst (process_article env url st) = Inr ()" by blast
  from Cons.prems
  have "\<forall>u\<in>set rest. \<forall>r. requests_get env u = Inr r \<longrightarrow> (\<exists>page. BeautifulSoup env r = Inr page)"
    by simp
  from Cons.IH[OF this, of "snd (process_article env url st)"]
  show ?case unfolding process_links_step[OF ok] by (simp add: process_article_fetched)
qed

lemma process_links_append:
  "fst (process_links env pre st) = Inr () \<Longrightarrow>
   process_links env (pre @ rest) st = process_links env rest (snd (process_links env pre st))"
proof (induction pre arbitrary: st)
  case Nil
  then show ?case by simp
next
  case (Cons url pre)
  from process_article_cases[of env url st] show ?case
  proof (elim disjE exE)
    assume ok: "fst (process_article env url st) = Inr ()"
    from Cons.prems have "fst (process_links env pre (snd (process_article env url st))) = Inr ()"
      unfolding process_links_step[OF ok] .
    from Cons.IH[OF this] show ?thesis
      using process_links_step[OF ok, of "pre @ rest"] process_links_step[OF ok, of pre] by simp
  next
    fix e assume ab: "fst (process_article env url st) = Inl e"
    with Cons.prems show ?thesis unfolding process_links_abort[OF ab] by simp
  qed
qed

lemma process_links_rejected:
  "requests_get env url = Inr response \<Longrightarrow> BeautifulSoup env response = Inl e \<Longrightarrow>
   process_links env (url # rest) st = (Inl e, st\<lparr>fetched := fetched st @ [url]\<rparr>)"
  by (simp add: process_article_rejected)

section \<open>Failed requests\<close>

lemma fetch_live_articles_home_error:
  "requests_get env (ascii ''https://www.bbc.com/news'') = Inl e \<Longrightarrow>
   fetch_live_articles env st =
     (Inr (), logging ERROR (st\<lparr>fetched := fetched st @ [ascii ''https://www.bbc.com/news'']\<rparr>))"
  by (simp add: fetch_live_articles_def)

lemma fetch_live_articles_home_rejected:
  "requests_get env (ascii ''https://www.bbc.com/news'') = Inr response \<Longrightarrow>
   BeautifulSoup env response = Inl e \<Longrightarrow>
   fetch_live_articles env st =
     (Inl e, st\<lparr>fetched := fetched st @ [ascii ''https://www.bbc.com/news'']\<rparr>)"
  by (simp add: fetch_live_articles_def)

lemma fetch_live_articles_home_ok:
  assumes "requests_get env (ascii ''https://www.bbc.com/news'') = Inr response"
    and "BeautifulSoup env response = Inr soup"
  shows "\<exists>urls. article_links env soup = Inr urls \<and>
     fetch_live_articles env st =
       process_links env urls (st\<lparr>fetched := fetched st @ [ascii ''https://www.bbc.com/news'']\<rparr>)"
proof -
  from article_links_set[of env soup]
  obtain urls where "article_links env soup = Inr urls" by blast
  then show ?thesis using assms by (simp add: fetch_live_articles_def)
qed

text \<open>
  C5.  When the request of the homepage fails, the run returns with the store unchanged,
  no storage call made and no URL requested but the homepage.  When the request of one
  article fails, \<open>process_article\<close> returns with the store unchanged and no storage call
  made, and the loop goes on with the remaining links, also when links that raised
  nothing came before it.  When the homepage is fetched and parsed, the run is the loop
  over its links; if the parser rejects none of the pages fetched for them, the run
  returns and every link has been requested, whatever the requests did.
\<close>

theorem fetch_errors_are_local:
  "(requests_get env (ascii ''https://www.bbc.com/news'') = Inl e \<longrightarrow>
      (\<exists>st'. fetch_live_articles env st = (Inr (), st') \<and> store st' = store st \<and>
             sdk_calls st' = sdk_calls st \<and>
             fetched st' = fetched st @ [ascii ''https://www.bbc.com/news''])) \<and>
   (requests_get env url = Inl e' \<longrightarrow>
      fst (process_article env url st) = Inr () \<and>
      store (snd (process_article env url st)) = store st \<and>
      sdk_calls (snd (process_article env url st)) = sdk_calls st \<and>
      process_links env (url # rest) st =
        process_links env rest (logging ERROR (st\<lparr>fetched := fetched st @ [url]\<rparr>))) \<and>
   (requests_get env url = Inl e' \<and> fst (process_links env pre st) = Inr () \<longrightarrow>
      process_links env (pre @ url # rest) st =
        process_links env rest
          (logging ERROR ((snd (process_links env pre st))
             \<lparr>fetched := fetched (snd (process_links env pre st)) @ [url]\<rparr>))) \<and>
   (requests_get env (ascii ''https://www.bbc.com/news'') = Inr response \<and>
    BeautifulSoup env response = Inr soup \<longrightarrow>
      (\<exists>urls. article_links env soup = Inr urls \<and>
         fetch_live_articles env st =
           process_links env urls
             (st\<lparr>fetched := fetched st @ [ascii ''https://www.bbc.com/news'']\<rparr>) \<and>
         ((\<forall>u\<in>set urls. \<forall>r. requests_get env u = Inr r \<longrightarrow>
              (\<exists>page. BeautifulSoup env r = Inr page)) \<longrightarrow>
            fst (fetch_live_articles env st) = Inr () \<and>
            fetched (snd (fetch_live_articles env st)) =
              fetched st @ ascii ''https://www.bbc.com/news'' # urls)))"
proof (intro conjI impI)
  assume "requests_get env (ascii ''https://www.bbc.com/news'') = Inl e"
  then show "\<exists>st'. fetch_live_articles env st = (Inr (), st') \<and> store st' = store st \<and>
             sdk_calls st' = sdk_calls st \<and>
             fetched st' = fetched st @ [ascii ''https://www.bbc.com/news'']"
    by (simp add: fetch_live_articles_home_error)
next
  assume a: "requests_get env url = Inl e'"
  show "fst (process_article env url st) = Inr ()"
    by (simp add: process_article_fetch_error[OF a])
  show "store (snd (process_article env url st)) = store st"
    by (simp add: process_article_fetch_error[OF a])
  show "sdk_calls (snd (process_article env url st)) = sdk_calls st"
    by (simp add: process_article_fetch_error[OF a])
  show "process_links env (url # rest) st =
        process_links env rest (logging ERROR (st\<lparr>fetched := fetched st @ [url]\<rparr>))"
    by (simp add: process_article_fetch_error[OF a])
next
  assume "requests_get env url = Inl e' \<and> fst (process_links env pre st) = Inr ()"
  then have a: "requests_get env url = Inl e'" and b: "fst (process_links env pre st) = Inr ()"
    by simp_all
  show "process_links env (pre @ url # rest) st =
        process_links env rest
          (logging ERROR ((snd (process_links env pre st))
             \<lparr>fetched := fetched (snd (process_links env pre st)) @ [url]\<rparr>))"
    unfolding process_links_append[OF b]
    by (simp add: process_article_fetch_error[OF a])
next
  assume "requests_get env (ascii ''https://www.bbc.com/news'') = Inr response \<and>
    BeautifulSoup env response = Inr soup"
  then have rq: "requests_get env (ascii ''https://www.bbc.com/news'') = Inr response"
    and ps: "BeautifulSoup env response = Inr soup" by simp_all
  from fetch_live_articles_home_ok[OF rq ps, of st]
  obtain urls where u: "article_links env soup = Inr urls"
    and f: "fetch_live_articles env st =
       process_links env urls (st\<lparr>fetched := fetched st @ [ascii ''https://www.bbc.com/news'']\<rparr>)"
    by blast
  have "(\<forall>u\<in>set urls. \<forall>r. requests_get env u = Inr r \<longrightarrow>
              (\<exists>page. BeautifulSoup env r = Inr page)) \<longrightarrow>
            fst (fetch_live_articles env st) = Inr () \<and>
            fetched (snd (fetch_live_articles env st)) =
              fetched st @ ascii ''https://www.bbc.com/news'' # urls"
  proof
    assume "\<forall>u\<in>set urls. \<forall>r. requests_get env u = Inr r \<longrightarrow>
              (\<exists>page. BeautifulSoup env r = Inr page)"
    from process_links_all[OF this,
        of "st\<lparr>fetched := fetched st @ [ascii ''https://www.bbc.com/news'']\<rparr>"]
    show "fst (fetch_live_articles env st) = Inr () \<and>
            fetched (snd (fetch_live_articles env st)) =
              fetched st @ ascii ''https://www.bbc.com/news'' # urls"
      unfolding f by simp
  qed
  with u f show "\<exists>urls. article_links env soup = Inr urls \<and>
         fetch_live_articles env st =
           process_links env urls
             (st\<lparr>fetched := fetched st @ [ascii ''https://www.bbc.com/news'']\<rparr>) \<and>
         ((\<forall>u\<in>set urls. \<forall>r. requests_get env u = Inr r \<longrightarrow>
              (\<exists>page. BeautifulSoup env r = Inr page)) \<longrightarrow>
            fst (fetch_live_articles env st) = Inr () \<and>
            fetched (snd (fetch_live_articles env st)) =
              fetched st @ ascii ''https://www.bbc.com/news'' # urls)"
    by blast
qed

lemma news_home:
  "requests_get (site_env news_site) (ascii ''https://www.bbc.com/news'') =
     Inr (ascii ''https://www.bbc.com/news'')"
  "BeautifulSoup (site_env news_site) (ascii ''https://www.bbc.com/news'') =
     Inr (Element (ascii ''[document]'') []
         [anchor (ascii ''/news/articles/gone''), anchor (ascii ''/news/articles/one''),
          anchor (ascii ''/news/articles/blank''), anchor (ascii ''/news/articles/two'')])"
  by (simp_all add: site_env_def news_site_def ascii_def)

lemma news_links:
  "article_links (site_env news_site)
     (Element (ascii ''[document]'') []
         [anchor (ascii ''/news/articles/gone''), anchor (ascii ''/news/articles/one''),
          anchor (ascii ''/news/articles/blank''), anchor (ascii ''/news/articles/two'')]) =
   Inr [ascii ''https://www.bbc.com/news/articles/gone'',
        ascii ''https://www.bbc.com/news/articles/one'',
        ascii ''https://www.bbc.com/news/articles/blank'',
        ascii ''https://www.bbc.com/news/articles/two'']"
  by (simp add: site_env_def article_links_def find_all_def anchor_def is_tag_def
      href_matches_def get_attr_def startswith_def set_add_def set_iter_def absolute_url_def
      ascii_def)

lemma site_env_parses:
  "requests_get (site_env site) u = Inr r \<Longrightarrow> \<exists>page. BeautifulSoup (site_env site) r = Inr page"
  by (auto simp: site_env_def split: option.splits)

theorem fetch_errors_are_local_witness:
  "(\<exists>st'. fetch_live_articles quiet_env empty_state = (Inr (), st') \<and>
      store st' = store empty_state \<and> fetched st' = [ascii ''https://www.bbc.com/news'']) \<and>
   store (snd (process_article (site_env news_site)
       (ascii ''https://www.bbc.com/news/articles/gone'') empty_state)) = store empty_state \<and>
   fst (fetch_live_articles (site_env news_site) empty_state) = Inr () \<and>
   fetched (snd (fetch_live_articles (site_env news_site) empty_state)) =
        [ascii ''https://www.bbc.com/news'',
         ascii ''https://www.bbc.com/news/articles/gone'',
         ascii ''https://www.bbc.com/news/articles/one'',
         ascii ''https://www.bbc.com/news/articles/blank'',
         ascii ''https://www.bbc.com/news/articles/two'']"
proof -
  let ?home = "ascii ''https://www.bbc.com/news''"
  let ?gone = "ascii ''https://www.bbc.com/news/articles/gone''"
  let ?env = "site_env news_site"
  let ?soup = "Element (ascii ''[document]'') []
         [anchor (ascii ''/news/articles/gone''), anchor (ascii ''/news/articles/one''),
          anchor (ascii ''/news/articles/blank''), anchor (ascii ''/news/articles/two'')]"
  have q: "requests_get quiet_env ?home = Inl []" by (simp add: quiet_env_def)
  have e: "fetched empty_state = []" by (simp add: empty_state_def)
  from fetch_errors_are_local[of quiet_env "[]" empty_state ?gone "[]" "[]" "[]" "[]" "Text []"] q
  have a: "\<exists>st'. fetch_live_articles quiet_env empty_state = (Inr (), st') \<and>
      store st' = store empty_state \<and> fetched st' = [?home]"
    unfolding e by auto
  from fetch_errors_are_local[of ?env "[]" empty_state ?gone "ascii ''404''" "[]" "[]" ?home ?soup]
    news_home news_gone
  have b: "\<exists>urls. article_links ?env ?soup = Inr urls \<and>
         fetch_live_articles ?env empty_state =
           process_links ?env urls (empty_state\<lparr>fetched := fetched empty_state @ [?home]\<rparr>) \<and>
         ((\<forall>u\<in>set urls. \<forall>r. requests_get ?env u = Inr r \<longrightarrow>
              (\<exists>page. BeautifulSoup ?env r = Inr page)) \<longrightarrow>
            fst (fetch_live_articles ?env empty_state) = Inr () \<and>
            fetched (snd (fetch_live_articles ?env empty_state)) =
              fetched empty_state @ ?home # urls)"
    and c: "store (snd (process_article ?env ?gone empty_state)) = store empty_state"
    by blast+
  from b site_env_parses[of news_site]
  have b': "fst (fetch_live_articles ?env empty_state) = Inr () \<and>
      fetched (snd (fetch_live_articles ?env empty_state)) =
        [?home, ?gone, ascii ''https://www.bbc.com/news/articles/one'',
         ascii ''https://www.bbc.com/news/articles/blank'',
         ascii ''https://www.bbc.com/news/articles/two'']"
    unfolding news_links e by auto
  from a c b' show ?thesis by (intro conjI) simp_all
qed

section \<open>Markup the parser rejects\<close>

lemma rejecting_env_simps:
  "requests_get rejecting_env = requests_get (site_env news_site)"
  "str_hash rejecting_env = str_hash (site_env news_site)"
  "fault rejecting_env = (\<lambda>k. None)"
  "BeautifulSoup rejecting_env (ascii ''https://www.bbc.com/news/articles/one'') =
     Inl (ascii ''ParserRejectedMarkup'')"
  "BeautifulSoup rejecting_env (ascii ''https://www.bbc.com/news'') =
     BeautifulSoup (site_env news_site) (ascii ''https://www.bbc.com/news'')"
  by (simp_all add: rejecting_env_def site_env_def ascii_def)

lemma article_links_env:
  "str_hash env = str_hash env' \<Longrightarrow> article_links env soup = article_links env' soup"
  by (simp add: article_links_def split: sum.splits)

lemma rejected_markup_aborts_run:
  "fst (fetch_live_articles rejecting_env empty_state) = Inl (ascii ''ParserRejectedMarkup'') \<and>
   fetched (snd (fetch_live_articles rejecting_env empty_state)) =
     [ascii ''https://www.bbc.com/news'',
      ascii ''https://www.bbc.com/news/articles/gone'',
      ascii ''https://www.bbc.com/news/articles/one'']"
proof -
  let ?home = "ascii ''https://www.bbc.com/news''"
  let ?gone = "ascii ''https://www.bbc.com/news/articles/gone''"
  let ?one = "ascii ''https://www.bbc.com/news/articles/one''"
  let ?st1 = "empty_state\<lparr>fetched := fetched empty_state @ [?home]\<rparr>"
  have rq: "requests_get rejecting_env ?home = Inr ?home"
    by (simp add: rejecting_env_simps news_home)
  have ps: "BeautifulSoup rejecting_env ?home = Inr (Element (ascii ''[document]'') []
         [anchor (ascii ''/news/articles/gone''), anchor (ascii ''/news/articles/one''),
          anchor (ascii ''/news/articles/blank''), anchor (ascii ''/news/articles/two'')])"
    by (simp add: rejecting_env_simps news_home)
  have ln: "article_links rejecting_env (Element (ascii ''[document]'') []
         [anchor (ascii ''/news/articles/gone''), anchor (ascii ''/news/articles/one''),
          anchor (ascii ''/news/articles/blank''), anchor (ascii ''/news/articles/two'')]) =
     Inr [?gone, ?one, ascii ''https://www.bbc.com/news/articles/blank'',
          ascii ''https://www.bbc.com/news/articles/two'']"
    using article_links_env[OF rejecting_env_simps(2)] news_links by simp
  have f: "fetch_live_articles rejecting_env empty_state =
      process_links rejecting_env
        [?gone, ?one, ascii ''https://www.bbc.com/news/articles/blank'',
          ascii ''https://www.bbc.com/news/articles/two''] ?st1"
    using fetch_live_articles_home_ok[OF rq ps, of empty_state] unfolding ln by simp
  have g: "requests_get rejecting_env ?gone = Inl (ascii ''404'')"
    by (simp add: rejecting_env_simps news_gone)
  have o: "requests_get rejecting_env ?one = Inr ?one"
    by (simp add: rejecting_env_simps news_one)
  have 1: "process_links rejecting_env
        [?gone, ?one, ascii ''https://www.bbc.com/news/articles/blank'',
          ascii ''https://www.bbc.com/news/articles/two''] ?st1 =
      process_links rejecting_env
        [?one, ascii ''https://www.bbc.com/news/articles/blank'',
          ascii ''https://www.bbc.com/news/articles/two'']
        (logging ERROR (?st1\<lparr>fetched := fetched ?st1 @ [?gone]\<rparr>))"
    by (simp add: process_article_fetch_error[OF g])
  show ?thesis
    unfolding f 1 process_links_rejected[OF o rejecting_env_simps(4)]
    by (simp add: logging_def empty_state_def)
qed

section \<open>The name of the blob\<close>

lemma replace_length: "length (replace old new s) = length s"
  by (simp add: replace_def)

lemma replace_nth: "i < length s \<Longrightarrow> replace old new s ! i = (if s ! i = old then new else s ! i)"
  by (simp add: replace_def)

lemma blobs_store_upd:
  "store s = (store st)(c \<mapsto> m) \<Longrightarrow> blobs s c = m"
  by (simp add: blobs_def)

text \<open>
  C8.  When the page is fetched, the parser returns it, its content is not empty and
  storage works, \<open>process_article\<close> writes the record under the name \<open>article-\<close>, the title
  with every space replaced by an underscore, \<open>.json\<close>; whatever storage does, it changes
  no blob of another name.  The replacement keeps the length of the title and changes no
  character but the space (code point 32, to 95).  Two articles with the same title are
  written under the same name: after both, the container holds the blobs it held before
  and, under that name, the record of the second.
\<close>

theorem blob_name_from_title:
  "(requests_get env url = Inr response \<and> BeautifulSoup env response = Inr soup \<and>
    extract_content soup \<noteq> [] \<and> fault env = (\<lambda>k. None) \<longrightarrow>
      store (snd (process_article env url st)) =
        (store st)(ascii ''articles-data'' \<mapsto>
          (blobs st (ascii ''articles-data''))
            (ascii ''article-'' @ replace 32 95 (extract_title soup) @ ascii ''.json'' \<mapsto>
             json_dumps (float_repr env) False (Some 4)
               (article_data (extract_title soup) (extract_content soup) url)))) \<and>
   (\<forall>b. blobs (snd (process_article env url st)) (ascii ''articles-data'') b \<noteq>
          blobs st (ascii ''articles-data'') b \<longrightarrow>
        (\<exists>response soup. requests_get env url = Inr response \<and>
           BeautifulSoup env response = Inr soup \<and>
           b = ascii ''article-'' @ replace 32 95 (extract_title soup) @ ascii ''.json'')) \<and>
   length (replace 32 95 title) = length title \<and>
   (\<forall>i<length title. replace 32 95 title ! i = (if title ! i = 32 then 95 else title ! i)) \<and>
   (requests_get env url1 = Inr r1 \<and> requests_get env url2 = Inr r2 \<and>
    BeautifulSoup env r1 = Inr soup1 \<and> BeautifulSoup env r2 = Inr soup2 \<and>
    extract_content soup1 \<noteq> [] \<and> extract_content soup2 \<noteq> [] \<and>
    extract_title soup1 = extract_title soup2 \<and>
    fault env = (\<lambda>k. None) \<longrightarrow>
      blobs (snd (process_article env url2 (snd (process_article env url1 st))))
          (ascii ''articles-data'') =
        (blobs st (ascii ''articles-data''))
          (ascii ''article-'' @ replace 32 95 (extract_title soup2) @ ascii ''.json'' \<mapsto>
           json_dumps (float_repr env) False (Some 4)
             (article_data (extract_title soup2) (extract_content soup2) url2)))"
proof (intro conjI allI impI)
  assume "requests_get env url = Inr response \<and> BeautifulSoup env response = Inr soup \<and>
    extract_content soup \<noteq> [] \<and> fault env = (\<lambda>k. None)"
  then show "store (snd (process_article env url st)) =
        (store st)(ascii ''articles-data'' \<mapsto>
          (blobs st (ascii ''articles-data''))
            (ascii ''article-'' @ replace 32 95 (extract_title soup) @ ascii ''.json'' \<mapsto>
             json_dumps (float_repr env) False (Some 4)
               (article_data (extract_title soup) (extract_content soup) url)))"
    using process_article_ok[of env url response soup st] by blast
next
  fix b
  assume a: "blobs (snd (process_article env url st)) (ascii ''articles-data'') b \<noteq>
          blobs st (ascii ''articles-data'') b"
  from process_article_blobs[of env url st]
  show "\<exists>response soup. requests_get env url = Inr response \<and>
           BeautifulSoup env response = Inr soup \<and>
           b = ascii ''article-'' @ replace 32 95 (extract_title soup) @ ascii ''.json''"
  proof
    assume "blobs (snd (process_article env url st)) (ascii ''articles-data'') =
      blobs st (ascii ''articles-data'')"
    with a show ?thesis by simp
  next
    assume "\<exists>response soup. requests_get env url = Inr response \<and>
      BeautifulSoup env response = Inr soup \<and> extract_content soup \<noteq> [] \<and>
      blobs (snd (process_article env url st)) (ascii ''articles-data'') =
        (blobs st (ascii ''articles-data''))
          (ascii ''article-'' @ replace 32 95 (extract_title soup) @ ascii ''.json'' \<mapsto>
           json_dumps (float_repr env) False (Some 4)
             (article_data (extract_title soup) (extract_content soup) url))"
    then obtain response soup where rq: "requests_get env url = Inr response"
      and ps: "BeautifulSoup env response = Inr soup"
      and eq: "blobs (snd (process_article env url st)) (ascii ''articles-data'') =
        (blobs st (ascii ''articles-data''))
          (ascii ''article-'' @ replace 32 95 (extract_title soup) @ ascii ''.json'' \<mapsto>
           json_dumps (float_repr env) False (Some 4)
             (article_data (extract_title soup) (extract_content soup) url))"
      by (elim exE conjE)
    have "b = ascii ''article-'' @ replace 32 95 (extract_title soup) @ ascii ''.json''"
      using a unfolding eq by (simp split: if_splits)
    with rq ps show ?thesis by blast
  qed
next
  show "length (replace 32 95 title) = length title" by (rule replace_length)
next
  fix i assume "i < length title"
  then show "replace 32 95 title ! i = (if title ! i = 32 then 95 else title ! i)"
    by (rule replace_nth)
next
  assume a: "requests_get env url1 = Inr r1 \<and> requests_get env url2 = Inr r2 \<and>
    BeautifulSoup env r1 = Inr soup1 \<and> BeautifulSoup env r2 = Inr soup2 \<and>
    extract_content soup1 \<noteq> [] \<and> extract_content soup2 \<noteq> [] \<and>
    extract_title soup1 = extract_title soup2 \<and>
    fault env = (\<lambda>k. None)"
  let ?s1 = "snd (process_article env url1 st)"
  let ?n = "ascii ''article-'' @ replace 32 95 (extract_title soup2) @ ascii ''.json''"
  from a have 1: "requests_get env url1 = Inr r1" and 2: "requests_get env url2 = Inr r2"
    and p1: "BeautifulSoup env r1 = Inr soup1" and p2: "BeautifulSoup env r2 = Inr soup2"
    and 3: "extract_content soup1 \<noteq> []" and 4: "extract_content soup2 \<noteq> []"
    and 5: "extract_title soup1 = extract_title soup2"
    and 6: "fault env = (\<lambda>k. None)" by simp_all
  have b1: "blobs ?s1 (ascii ''articles-data'') =
      (blobs st (ascii ''articles-data''))(?n \<mapsto>
         json_dumps (float_repr env) False (Some 4)
           (article_data (extract_title soup1) (extract_content soup1) url1))"
    using blobs_store_upd[OF process_article_ok[OF 1 p1 3 6, of st]] 5 by simp
  have "blobs (snd (process_article env url2 ?s1)) (ascii ''articles-data'') =
      (blobs ?s1 (ascii ''articles-data''))(?n \<mapsto>
         json_dumps (float_repr env) False (Some 4)
           (article_data (extract_title soup2) (extract_content soup2) url2))"
    by (rule blobs_store_upd[OF process_article_ok[OF 2 p2 4 6, of ?s1]])
  then show "blobs (snd (process_article env url2 (snd (process_article env url1 st))))
          (ascii ''articles-data'') =
        (blobs st (ascii ''articles-data''))
          (?n \<mapsto>
           json_dumps (float_repr env) False (Some 4)
             (article_data (extract_title soup2) (extract_content soup2) url2))"
    unfolding b1 by simp
qed

theorem blob_name_from_title_witness:
  "blobs (snd (process_article (site_env news_site) (ascii ''https://www.bbc.com/news/articles/two'')
            (snd (process_article (site_env news_site)
               (ascii ''https://www.bbc.com/news/articles/one'') empty_state))))
       (ascii ''articles-data'') =
     (blobs empty_state (ascii ''articles-data''))
       (ascii ''article-Hello_World.json'' \<mapsto>
        json_dumps (float_repr (site_env news_site)) False (Some 4)
          (article_data (ascii ''Hello World'') (ascii ''Other.'')
             (ascii ''https://www.bbc.com/news/articles/two'')))"
proof -
  let ?env = "site_env news_site"
  let ?one = "ascii ''https://www.bbc.com/news/articles/one''"
  let ?two = "ascii ''https://www.bbc.com/news/articles/two''"
  let ?p1 = "article_page (ascii ''Hello World'') [ascii ''First.'', ascii ''Second.'']"
  let ?p2 = "article_page (ascii ''Hello World'') [ascii ''Other.'']"
  have h: "requests_get ?env ?one = Inr ?one \<and> requests_get ?env ?two = Inr ?two \<and>
    BeautifulSoup ?env ?one = Inr ?p1 \<and> BeautifulSoup ?env ?two = Inr ?p2 \<and>
    extract_content ?p1 \<noteq> [] \<and> extract_content ?p2 \<noteq> [] \<and>
    extract_title ?p1 = extract_title ?p2 \<and>
    fault ?env = (\<lambda>k. None)"
    by (simp add: news_one news_two page_one page_two site_env_fault)
  have nm: "ascii ''article-'' @ replace 32 95 (ascii ''Hello World'') @ ascii ''.json'' = ascii ''article-Hello_World.json''"
    by (simp add: ascii_def replace_def)
  from blob_name_from_title[of ?env ?one ?one ?p1 empty_state "[]" ?one ?one ?two ?two ?p1 ?p2] h
  have "blobs (snd (process_article ?env ?two (snd (process_article ?env ?one empty_state))))
          (ascii ''articles-data'') =
        (blobs empty_state (ascii ''articles-data''))
          (ascii ''article-'' @ replace 32 95 (extract_title ?p2) @ ascii ''.json'' \<mapsto>
           json_dumps (float_repr ?env) False (Some 4)
             (article_data (extract_title ?p2) (extract_content ?p2) ?two))"
    by blast
  then show ?thesis unfolding page_two nm .
qed

section \<open>The cap on the links\<close>

text \<open>
  C10.  The cap of 10 is applied to the matching anchors before the links are made
  unique: the links of a parsed homepage are the URLs of the first 10 matching anchors;
  when two of these have the same href, there are fewer than 10 links; an anchor at
  position 10 or later whose href is not among those of the first 10 is not a link; and
  the URLs that a run requests after the homepage are the first links, in the order of
  the loop, up to all of them.
\<close>

theorem cap_before_dedup:
  "\<exists>urls. article_links env soup = Inr urls \<and>
      set urls = absolute_url ` set (take 10 (matching_hrefs soup)) \<and>
      (\<not> distinct (take 10 (matching_hrefs soup)) \<longrightarrow> length urls < 10) \<and>
      (\<forall>i. 10 \<le> i \<and> i < length (matching_hrefs soup) \<and>
           matching_hrefs soup ! i \<notin> set (take 10 (matching_hrefs soup)) \<longrightarrow>
           absolute_url (matching_hrefs soup ! i) \<notin> set urls) \<and>
      (requests_get env (ascii ''https://www.bbc.com/news'') = Inr response \<and>
       BeautifulSoup env response = Inr soup \<longrightarrow>
         (\<exists>k\<le>length urls. fetched (snd (fetch_live_articles env st)) =
            fetched st @ ascii ''https://www.bbc.com/news'' # take k urls))"
proof -
  let ?hs = "take 10 (matching_hrefs soup)"
  from article_links_set[of env soup] obtain urls where
    U: "article_links env soup = Inr urls" "distinct urls" "set urls = absolute_url ` set ?hs"
    by blast
  have len: "length urls = card (set ?hs)"
    using U(2,3) by (simp add: distinct_card[symmetric] card_image inj_absolute_url[THEN inj_on_subset])
  have dup: "\<not> distinct ?hs \<longrightarrow> length urls < 10"
  proof
    assume nd: "\<not> distinct ?hs"
    have ne: "card (set ?hs) \<noteq> length ?hs" using nd card_distinct by blast
    have le: "card (set ?hs) \<le> length ?hs" by (rule card_length)
    have l10: "length ?hs \<le> 10" by simp
    from ne le l10 len show "length urls < 10" by linarith
  qed
  have late: "\<forall>i. 10 \<le> i \<and> i < length (matching_hrefs soup) \<and>
           matching_hrefs soup ! i \<notin> set ?hs \<longrightarrow>
           absolute_url (matching_hrefs soup ! i) \<notin> set urls"
    using U(3) by (auto simp: inj_absolute_url[THEN inj_eq])
  have run: "requests_get env (ascii ''https://www.bbc.com/news'') = Inr response \<and>
       BeautifulSoup env response = Inr soup \<longrightarrow>
         (\<exists>k\<le>length urls. fetched (snd (fetch_live_articles env st)) =
            fetched st @ ascii ''https://www.bbc.com/news'' # take k urls)"
  proof
    assume "requests_get env (ascii ''https://www.bbc.com/news'') = Inr response \<and>
       BeautifulSoup env response = Inr soup"
    then have rq: "requests_get env (ascii ''https://www.bbc.com/news'') = Inr response"
      and ps: "BeautifulSoup env response = Inr soup" by simp_all
    from fetch_live_articles_home_ok[OF rq ps, of st] U(1)
    have f: "fetch_live_articles env st =
       process_links env urls (st\<lparr>fetched := fetched st @ [ascii ''https://www.bbc.com/news'']\<rparr>)"
      by simp
    from process_links_prefix[of urls env
        "st\<lparr>fetched := fetched st @ [ascii ''https://www.bbc.com/news'']\<rparr>"]
    show "\<exists>k\<le>length urls. fetched (snd (fetch_live_articles env st)) =
            fetched st @ ascii ''https://www.bbc.com/news'' # take k urls"
      unfolding f by simp
  qed
  from U(1,3) dup late run show ?thesis by blast
qed

lemma homepage12_hrefs:
  "matching_hrefs homepage12 =
     map (\<lambda>k. ascii ''/news/articles/'' @ digits k) [1, 1, 2, 3, 4, 5, 6, 7, 8, 9, 10, 11]"
  by code_simp

lemma twelve_home:
  "requests_get (site_env [(ascii ''https://www.bbc.com/news'', homepage12)])
     (ascii ''https://www.bbc.com/news'') = Inr (ascii ''https://www.bbc.com/news'')"
  "BeautifulSoup (site_env [(ascii ''https://www.bbc.com/news'', homepage12)])
     (ascii ''https://www.bbc.com/news'') = Inr homepage12"
  by (simp_all add: site_env_def)

theorem cap_before_dedup_witness:
  "\<exists>urls k. article_links (site_env [(ascii ''https://www.bbc.com/news'', homepage12)])
        homepage12 = Inr urls \<and>
      fetched (snd (fetch_live_articles
        (site_env [(ascii ''https://www.bbc.com/news'', homepage12)]) empty_state)) =
        ascii ''https://www.bbc.com/news'' # take k urls \<and>
      length urls < 10 \<and>
      ascii ''https://www.bbc.com/news/articles/11'' \<notin> set urls"
proof -
  let ?env = "site_env [(ascii ''https://www.bbc.com/news'', homepage12)]"
  let ?home = "ascii ''https://www.bbc.com/news''"
  have nd: "\<not> distinct (take 10 (matching_hrefs homepage12))"
    unfolding homepage12_hrefs by code_simp
  have i: "10 \<le> (11::nat) \<and> 11 < length (matching_hrefs homepage12) \<and>
      matching_hrefs homepage12 ! 11 \<notin> set (take 10 (matching_hrefs homepage12))"
    unfolding homepage12_hrefs by code_simp
  have u: "absolute_url (matching_hrefs homepage12 ! 11) = ascii ''https://www.bbc.com/news/articles/11''"
    unfolding homepage12_hrefs by code_simp
  have e: "fetched empty_state = []" by (simp add: empty_state_def)
  from cap_before_dedup[of ?env homepage12 ?home empty_state] twelve_home
  obtain urls k where
    a: "article_links ?env homepage12 = Inr urls"
    and b: "fetched (snd (fetch_live_articles ?env empty_state)) =
        fetched empty_state @ ?home # take k urls"
    and c: "\<not> distinct (take 10 (matching_hrefs homepage12)) \<longrightarrow> length urls < 10"
    and d: "\<forall>i. 10 \<le> i \<and> i < length (matching_hrefs homepage12) \<and>
           matching_hrefs homepage12 ! i \<notin> set (take 10 (matching_hrefs homepage12)) \<longrightarrow>
           absolute_url (matching_hrefs homepage12 ! i) \<notin> set urls"
    by blast
  from c nd have c': "length urls < 10" by simp
  from d[THEN spec, of 11] i
  have "absolute_url (matching_hrefs homepage12 ! 11) \<notin> set urls" by blast
  then have d': "ascii ''https://www.bbc.com/news/articles/11'' \<notin> set urls" unfolding u .
  from b have b': "fetched (snd (fetch_live_articles ?env empty_state)) = ?home # take k urls"
    unfolding e by simp
  from a b' c' d' have "article_links ?env homepage12 = Inr urls \<and>
      fetched (snd (fetch_live_articles ?env empty_state)) = ?home # take k urls \<and>
      length urls < 10 \<and>
      ascii ''https://www.bbc.com/news/articles/11'' \<notin> set urls"
    by (intro conjI)
  then show ?thesis by blast
qed

section \<open>The blob trigger\<close>

lemma save_to_blob_with_sentiment_ok:
  assumes "fault env = (\<lambda>k. None)"
  shows "store (save_to_blob_with_sentiment env d b st) =
     (store st)(ascii ''articles-sentiment'' \<mapsto>
        (blobs st (ascii ''articles-sentiment''))(b \<mapsto> json_dumps (float_repr env) False (Some 4) d))"
proof -
  from get_container_client_ok[OF assms, of "ascii ''articles-sentiment''" st]
  obtain s where g: "get_container_client env (ascii ''articles-sentiment'') st = (Inr (), s)"
    and s1: "store s (ascii ''articles-sentiment'') = Some (blobs st (ascii ''articles-sentiment''))"
    and s2: "\<forall>c'. c' \<noteq> ascii ''articles-sentiment'' \<longrightarrow> store s c' = store st c'"
    by blast
  have ne: "store s (ascii ''articles-sentiment'') \<noteq> None" using s1 by simp
  have bs: "blobs s (ascii ''articles-sentiment'') = blobs st (ascii ''articles-sentiment'')"
    using s1 by (simp add: blobs_def)
  have "store (save_to_blob_with_sentiment env d b st) =
      (store s)(ascii ''articles-sentiment'' \<mapsto>
        (blobs s (ascii ''articles-sentiment''))(b \<mapsto> json_dumps (float_repr env) False (Some 4) d))"
    using g upload_blob_ok[OF assms ne] by (simp add: save_to_blob_with_sentiment_def)
  also have "\<dots> = (store st)(ascii ''articles-sentiment'' \<mapsto>
        (blobs st (ascii ''articles-sentiment''))(b \<mapsto> json_dumps (float_repr env) False (Some 4) d))"
    using s2 bs by (auto simp: fun_eq_iff)
  finally show ?thesis .
qed

lemma blob_trigger_try_parse_error:
  "json_loads env (read myblob) = Inl e \<Longrightarrow> blob_trigger_try env myblob st = (Inl e, st)"
  by (simp add: blob_trigger_try_def)

lemma blob_trigger_try_no_content:
  "json_loads env (read myblob) = Inr (JObj d) \<Longrightarrow>
   map_of d (ascii ''content'') = None \<or> map_of d (ascii ''content'') = Some (JStr []) \<Longrightarrow>
   blob_trigger_try env myblob st = (Inr (), logging WARNING st)"
  by (auto simp: blob_trigger_try_def)

lemma blob_trigger_try_enriched:
  "json_loads env (read myblob) = Inr (JObj d) \<Longrightarrow>
   map_of d (ascii ''content'') = Some (JStr text) \<Longrightarrow> text \<noteq> [] \<Longrightarrow>
   sentiment env text = Inr (polarity, subjectivity) \<Longrightarrow>
   blob_trigger_try env myblob st =
     (Inr (), logging INFO
        (save_to_blob_with_sentiment env
           (JObj (dict_set d (ascii ''sentiment'') (sentiment_block polarity subjectivity)))
           (ascii ''sentiment-'' @ name myblob) st))"
  by (simp add: blob_trigger_try_def)

lemma blob_trigger_try_cases:
  "(\<exists>d text polarity subjectivity. json_loads env (read myblob) = Inr (JObj d) \<and>
      map_of d (ascii ''content'') = Some (JStr text) \<and> text \<noteq> [] \<and>
      sentiment env text = Inr (polarity, subjectivity)) \<or>
   (\<exists>e. blob_trigger_try env myblob st = (Inl e, st)) \<or>
   blob_trigger_try env myblob st = (Inr (), logging WARNING st)"
proof (cases "json_loads env (read myblob)")
  case (Inl e)
  then show ?thesis by (simp add: blob_trigger_try_def)
next
  case (Inr parsed)
  show ?thesis
  proof (cases parsed)
    case (JObj d)
    show ?thesis
    proof (cases "map_of d (ascii ''content'')")
      case None
      then show ?thesis using Inr JObj by (simp add: blob_trigger_try_def)
    next
      case (Some v)
      show ?thesis
      proof (cases v)
        case (JStr t)
        show ?thesis
        proof (cases "sentiment env t")
          case (Inl e)
          then show ?thesis using Inr JObj Some JStr by (simp add: blob_trigger_try_def)
        next
          case (Inr ps)
          then show ?thesis using \<open>json_loads env (read myblob) = Inr parsed\<close> JObj Some JStr
            by (cases ps) (simp add: blob_trigger_try_def)
        qed
      qed (use Inr JObj Some in \<open>simp_all add: blob_trigger_try_def\<close>)
    qed
  qed (use Inr in \<open>simp_all add: blob_trigger_try_def\<close>)
qed

lemma dict_set_other: "k \<noteq> k' \<Longrightarrow> map_of (dict_set d k' v) k = map_of d k"
  by (induction d) auto

lemma dict_set_same: "map_of (dict_set d k v) k = Some v"
  by (induction d) auto

lemma dict_set_new: "k \<notin> fst ` set d \<Longrightarrow> dict_set d k v = d @ [(k, v)]"
  by (induction d) auto

text \<open>
  C4.  When the bytes of the blob do not parse, \<open>BlobTrigger\<close> returns with nothing
  changed but the log (an error record): no blob is written and no storage call is made.
  When they parse to a dictionary whose content is absent or the empty string, it returns
  with nothing changed but the log (a warning).  Whenever it changes the store or makes a
  storage call, the bytes parsed to a dictionary with a non-empty string as content.  The
  function has no exceptional result: every exception of its body is caught.
\<close>

theorem enrichment_aborts_without_output:
  "(json_loads env (read myblob) = Inl e \<longrightarrow>
      BlobTrigger env myblob st = st\<lparr>logged := logged st @ [INFO, ERROR]\<rparr>) \<and>
   (json_loads env (read myblob) = Inr (JObj d) \<and>
    (map_of d (ascii ''content'') = None \<or> map_of d (ascii ''content'') = Some (JStr [])) \<longrightarrow>
      BlobTrigger env myblob st = st\<lparr>logged := logged st @ [INFO, WARNING]\<rparr>) \<and>
   (store (BlobTrigger env myblob st) \<noteq> store st \<or>
    sdk_calls (BlobTrigger env myblob st) \<noteq> sdk_calls st \<longrightarrow>
      (\<exists>d' t. json_loads env (read myblob) = Inr (JObj d') \<and>
         map_of d' (ascii ''content'') = Some (JStr t) \<and> t \<noteq> []))"
proof (intro conjI impI)
  assume "json_loads env (read myblob) = Inl e"
  then show "BlobTrigger env myblob st = st\<lparr>logged := logged st @ [INFO, ERROR]\<rparr>"
    by (simp add: BlobTrigger_def blob_trigger_try_parse_error logging_def)
next
  assume "json_loads env (read myblob) = Inr (JObj d) \<and>
    (map_of d (ascii ''content'') = None \<or> map_of d (ascii ''content'') = Some (JStr []))"
  then have "blob_trigger_try env myblob (logging INFO st) = (Inr (), logging WARNING (logging INFO st))"
    using blob_trigger_try_no_content by blast
  then show "BlobTrigger env myblob st = st\<lparr>logged := logged st @ [INFO, WARNING]\<rparr>"
    by (simp add: BlobTrigger_def logging_def)
next
  assume ch: "store (BlobTrigger env myblob st) \<noteq> store st \<or>
    sdk_calls (BlobTrigger env myblob st) \<noteq> sdk_calls st"
  from blob_trigger_try_cases[of env myblob "logging INFO st"]
  consider (ok) "\<exists>d t polarity subjectivity. json_loads env (read myblob) = Inr (JObj d) \<and>
      map_of d (ascii ''content'') = Some (JStr t) \<and> t \<noteq> [] \<and>
      sentiment env t = Inr (polarity, subjectivity)"
    | (err) "\<exists>e. blob_trigger_try env myblob (logging INFO st) = (Inl e, logging INFO st)"
    | (warn) "blob_trigger_try env myblob (logging INFO st) = (Inr (), logging WARNING (logging INFO st))"
    by blast
  then show "\<exists>d' t. json_loads env (read myblob) = Inr (JObj d') \<and>
         map_of d' (ascii ''content'') = Some (JStr t) \<and> t \<noteq> []"
  proof cases
    case ok
    then show ?thesis by blast
  next
    case err
    then have "store (BlobTrigger env myblob st) = store st \<and>
        sdk_calls (BlobTrigger env myblob st) = sdk_calls st"
      by (auto simp: BlobTrigger_def)
    with ch show ?thesis by blast
  next
    case warn
    then have "store (BlobTrigger env myblob st) = store st \<and>
        sdk_calls (BlobTrigger env myblob st) = sdk_calls st"
      by (simp add: BlobTrigger_def)
    with ch show ?thesis by blast
  qed
qed

theorem enrichment_aborts_without_output_witness:
  "BlobTrigger enrich_env \<lparr>name = ascii ''article-X.json'', read = ascii ''{''\<rparr> empty_state =
     empty_state\<lparr>logged := logged empty_state @ [INFO, ERROR]\<rparr> \<and>
   BlobTrigger enrich_env \<lparr>name = ascii ''article-X.json'', read = ascii ''empty''\<rparr> empty_state =
     empty_state\<lparr>logged := logged empty_state @ [INFO, WARNING]\<rparr>"
proof -
  let ?bad = "\<lparr>name = ascii ''article-X.json'', read = ascii ''{''\<rparr>"
  let ?emp = "\<lparr>name = ascii ''article-X.json'', read = ascii ''empty''\<rparr>"
  let ?d = "[(ascii ''title'', JStr (ascii ''X'')), (ascii ''content'', JStr []),
             (ascii ''url'', JStr (ascii ''u''))]"
  have h1: "json_loads enrich_env (read ?bad) = Inl (ascii ''Expecting value'')"
    by (simp add: enrich_env_def ascii_def)
  have h2: "json_loads enrich_env (read ?emp) = Inr (JObj ?d) \<and>
    (map_of ?d (ascii ''content'') = None \<or> map_of ?d (ascii ''content'') = Some (JStr []))"
    by (simp add: enrich_env_def article_data_def ascii_def)
  from enrichment_aborts_without_output[of enrich_env ?bad "ascii ''Expecting value''" empty_state "[]"] h1
  have a: "BlobTrigger enrich_env ?bad empty_state = empty_state\<lparr>logged := logged empty_state @ [INFO, ERROR]\<rparr>"
    by blast
  from enrichment_aborts_without_output[of enrich_env ?emp "[]" empty_state ?d] h2
  have b: "BlobTrigger enrich_env ?emp empty_state = empty_state\<lparr>logged := logged empty_state @ [INFO, WARNING]\<rparr>"
    by blast
  from a b show ?thesis by (rule conjI)
qed

text \<open>
  C7.  When the blob parses to a dictionary with a non-empty string as content, the scorer
  returns and storage works, \<open>BlobTrigger\<close> writes, to the container
  \<open>articles-sentiment\<close> under the name \<open>sentiment-\<close> followed by the name of the blob,
  the input dictionary with the key \<open>sentiment\<close> set.  Setting that key leaves the
  value of every other key as it was; on a dictionary without the key it appends one item
  and changes nothing else, so the record of title, content and url becomes these three
  fields, unchanged, followed by the sentiment block of polarity, subjectivity and
  overall.
\<close>

theorem enriched_record_adds_sentiment:
  "(json_loads env (read myblob) = Inr (JObj d) \<and>
    map_of d (ascii ''content'') = Some (JStr t) \<and> t \<noteq> [] \<and>
    sentiment env t = Inr (polarity, subjectivity) \<and> fault env = (\<lambda>k. None) \<longrightarrow>
      store (BlobTrigger env myblob st) =
        (store st)(ascii ''articles-sentiment'' \<mapsto>
          (blobs st (ascii ''articles-sentiment''))
            (ascii ''sentiment-'' @ name myblob \<mapsto>
             json_dumps (float_repr env) False (Some 4)
               (JObj (dict_set d (ascii ''sentiment'')
                  (sentiment_block polarity subjectivity)))))) \<and>
   (\<forall>k. k \<noteq> ascii ''sentiment'' \<longrightarrow> map_of (dict_set d (ascii ''sentiment'') v) k = map_of d k) \<and>
   map_of (dict_set d (ascii ''sentiment'') v) (ascii ''sentiment'') = Some v \<and>
   (ascii ''sentiment'' \<notin> fst ` set d \<longrightarrow>
      dict_set d (ascii ''sentiment'') v = d @ [(ascii ''sentiment'', v)]) \<and>
   (article_data title content url = JObj r \<longrightarrow>
      dict_set r (ascii ''sentiment'') v =
        [(ascii ''title'', JStr title), (ascii ''content'', JStr content),
         (ascii ''url'', JStr url), (ascii ''sentiment'', v)]) \<and>
   sentiment_block polarity subjectivity =
     JObj [(ascii ''polarity'', JFloat polarity), (ascii ''subjectivity'', JFloat subjectivity),
           (ascii ''overall'', JStr (overall polarity))]"
proof (intro conjI allI impI)
  assume a: "json_loads env (read myblob) = Inr (JObj d) \<and>
    map_of d (ascii ''content'') = Some (JStr t) \<and> t \<noteq> [] \<and>
    sentiment env t = Inr (polarity, subjectivity) \<and> fault env = (\<lambda>k. None)"
  then have f: "fault env = (\<lambda>k. None)" by simp
  from a have "blob_trigger_try env myblob (logging INFO st) =
     (Inr (), logging INFO
        (save_to_blob_with_sentiment env
           (JObj (dict_set d (ascii ''sentiment'') (sentiment_block polarity subjectivity)))
           (ascii ''sentiment-'' @ name myblob) (logging INFO st)))"
    using blob_trigger_try_enriched by blast
  then show "store (BlobTrigger env myblob st) =
        (store st)(ascii ''articles-sentiment'' \<mapsto>
          (blobs st (ascii ''articles-sentiment''))
            (ascii ''sentiment-'' @ name myblob \<mapsto>
             json_dumps (float_repr env) False (Some 4)
               (JObj (dict_set d (ascii ''sentiment'')
                  (sentiment_block polarity subjectivity)))))"
    by (simp add: BlobTrigger_def save_to_blob_with_sentiment_ok[OF f])
next
  fix k :: str assume "k \<noteq> ascii ''sentiment''"
  then show "map_of (dict_set d (ascii ''sentiment'') v) k = map_of d k" by (rule dict_set_other)
next
  show "map_of (dict_set d (ascii ''sentiment'') v) (ascii ''sentiment'') = Some v"
    by (rule dict_set_same)
next
  assume "ascii ''sentiment'' \<notin> fst ` set d"
  then show "dict_set d (ascii ''sentiment'') v = d @ [(ascii ''sentiment'', v)]"
    by (rule dict_set_new)
next
  assume "article_data title content url = JObj r"
  then have r: "r = [(ascii ''title'', JStr title), (ascii ''content'', JStr content),
         (ascii ''url'', JStr url)]" by (simp add: article_data_def)
  show "dict_set r (ascii ''sentiment'') v =
        [(ascii ''title'', JStr title), (ascii ''content'', JStr content),
         (ascii ''url'', JStr url), (ascii ''sentiment'', v)]"
    unfolding r by (simp add: ascii_def)
next
  show "sentiment_block polarity subjectivity =
     JObj [(ascii ''polarity'', JFloat polarity), (ascii ''subjectivity'', JFloat subjectivity),
           (ascii ''overall'', JStr (overall polarity))]"
    by (simp add: sentiment_block_def)
qed

theorem enriched_record_adds_sentiment_witness:
  "blobs (BlobTrigger enrich_env \<lparr>name = ascii ''article-X.json'', read = ascii ''love''\<rparr> empty_state)
     (ascii ''articles-sentiment'') (ascii ''sentiment-article-X.json'') =
   Some (json_dumps (float_repr enrich_env) False (Some 4)
     (JObj [(ascii ''title'', JStr (ascii ''X'')), (ascii ''content'', JStr (ascii ''I love this.'')),
            (ascii ''url'', JStr (ascii ''u'')),
            (ascii ''sentiment'',
             JObj [(ascii ''polarity'', JFloat 0.8), (ascii ''subjectivity'', JFloat 0.6),
                   (ascii ''overall'', JStr (ascii ''positive''))])]))"
proof -
  let ?blob = "\<lparr>name = ascii ''article-X.json'', read = ascii ''love''\<rparr>"
  let ?d = "[(ascii ''title'', JStr (ascii ''X'')), (ascii ''content'', JStr (ascii ''I love this.'')),
             (ascii ''url'', JStr (ascii ''u''))]"
  have h: "json_loads enrich_env (read ?blob) = Inr (JObj ?d) \<and>
    map_of ?d (ascii ''content'') = Some (JStr (ascii ''I love this.'')) \<and> ascii ''I love this.'' \<noteq> [] \<and>
    sentiment enrich_env (ascii ''I love this.'') = Inr (0.8, 0.6) \<and> fault enrich_env = (\<lambda>k. None)"
    by (simp add: enrich_env_def article_data_def ascii_def)
  have ad: "article_data (ascii ''X'') (ascii ''I love this.'') (ascii ''u'') = JObj ?d"
    by (simp add: article_data_def)
  have ov: "overall 0.8 = ascii ''positive''" by (simp add: overall_def)
  note T = enriched_record_adds_sentiment[of enrich_env ?blob ?d "ascii ''I love this.''" "0.8" "0.6"
      empty_state "sentiment_block 0.8 0.6" "ascii ''X''" "ascii ''I love this.''" "ascii ''u''" ?d]
  from T h have st: "store (BlobTrigger enrich_env ?blob empty_state) =
        (store empty_state)(ascii ''articles-sentiment'' \<mapsto>
          (blobs empty_state (ascii ''articles-sentiment''))
            (ascii ''sentiment-'' @ name ?blob \<mapsto>
             json_dumps (float_repr enrich_env) False (Some 4)
               (JObj (dict_set ?d (ascii ''sentiment'') (sentiment_block 0.8 0.6)))))"
    by blast
  from T ad have ds: "dict_set ?d (ascii ''sentiment'') (sentiment_block 0.8 0.6) =
      [(ascii ''title'', JStr (ascii ''X'')), (ascii ''content'', JStr (ascii ''I love this.'')),
       (ascii ''url'', JStr (ascii ''u'')), (ascii ''sentiment'', sentiment_block 0.8 0.6)]"
    by blast
  from T have sb: "sentiment_block 0.8 0.6 =
     JObj [(ascii ''polarity'', JFloat 0.8), (ascii ''subjectivity'', JFloat 0.6),
           (ascii ''overall'', JStr (overall 0.8))]" by blast
  have nm: "ascii ''sentiment-'' @ name ?blob = ascii ''sentiment-article-X.json''"
    by (simp add: ascii_def)
  note st' = st[unfolded sb ov nm]
  note ds' = ds[unfolded sb ov]
  show ?thesis
    unfolding blobs_def st' ds' by simp
qed


section \<open>The fake articles\<close>

lemma digits_range: "c \<in> set (digits n) \<Longrightarrow> 48 \<le> c \<and> c \<le> 57"
proof (induction n rule: digits.induct)
  case (1 n)
  show ?case
  proof (cases "n < 10")
    case True
    with "1.prems" show ?thesis by (simp add: digits.simps[of n])
  next
    case False
    with "1.prems" have "c \<in> set (digits (n div 10)) \<or> c = 48 + n mod 10"
      by (auto simp: digits.simps[of n])
    then show ?thesis
    proof
      assume "c \<in> set (digits (n div 10))"
      with "1.IH" False show ?thesis by simp
    next
      assume "c = 48 + n mod 10"
      moreover have "n mod 10 < 10" by simp
      ultimately show ?thesis by linarith
    qed
  qed
qed

lemma plain_ascii:
  "\<forall>c\<in>set s. 32 \<le> c \<and> c \<le> 126 \<and> c \<noteq> 34 \<and> c \<noteq> 92 \<Longrightarrow>
   concat (map escape_char_ascii s) = s"
  by (induction s) (auto simp: escape_char_ascii_def)

lemma encode_plain_ascii:
  "\<forall>c\<in>set s. 32 \<le> c \<and> c \<le> 126 \<and> c \<noteq> 34 \<and> c \<noteq> 92 \<Longrightarrow>
   encoder True s = 34 # s @ [34]"
  by (simp add: encoder_def encode_basestring_ascii_def plain_ascii)

lemma fake_article_dump:
  \<open>json_dumps fr True None (fake_article i) =
     ascii ''{"title": "Fake Article '' @ digits (i + 1) @
     ascii ''", "content": "This is a generated fake article for scalability testing purposes.", "url": "https://fakeurl.com/article-'' @
     digits (i + 1) @ ascii ''"}''\<close>
proof -
  have d: "\<forall>c\<in>set (digits (Suc i)). 32 \<le> c \<and> c \<le> 126 \<and> c \<noteq> 34 \<and> c \<noteq> 92"
    using digits_range[of _ "Suc i"] by fastforce
  have t: "encoder True (ascii ''Fake Article '' @ digits (Suc i)) =
      34 # (ascii ''Fake Article '' @ digits (Suc i)) @ [34]"
    by (rule encode_plain_ascii) (use d in \<open>auto simp: ascii_def\<close>)
  have u: "encoder True (ascii ''https://fakeurl.com/article-'' @ digits (Suc i)) =
      34 # (ascii ''https://fakeurl.com/article-'' @ digits (Suc i)) @ [34]"
    by (rule encode_plain_ascii) (use d in \<open>auto simp: ascii_def\<close>)
  have c: "encoder True (ascii ''This is a generated fake article for scalability testing purposes.'') =
      34 # ascii ''This is a generated fake article for scalability testing purposes.'' @ [34]"
    by (rule encode_plain_ascii) (simp add: ascii_def)
  have k: "encoder True (ascii ''title'') = 34 # ascii ''title'' @ [34]"
    "encoder True (ascii ''content'') = 34 # ascii ''content'' @ [34]"
    "encoder True (ascii ''url'') = 34 # ascii ''url'' @ [34]"
    by (rule encode_plain_ascii, simp add: ascii_def)+
  show ?thesis
    unfolding json_dumps_def fake_article_def
    by (simp add: t u c k newline_indent_def item_separator_def) (simp add: ascii_def)
qed

lemma clean_refl: "clean env a a"
  by (auto simp: clean_def)

lemma clean_step: "fault env a = None \<Longrightarrow> clean env a (Suc a)"
  by (auto simp: clean_def less_Suc_eq)

lemma clean_trans:
  assumes "clean env a b" "clean env b c"
  shows "clean env a c"
  unfolding clean_def
proof (intro conjI allI impI)
  show "a \<le> c" using assms by (simp add: clean_def)
next
  fix k assume k: "a \<le> k \<and> k < c"
  show "fault env k = None"
  proof (cases "k < b")
    case True
    then show ?thesis using assms(1) k by (simp add: clean_def)
  next
    case False
    then show ?thesis using assms(2) k by (simp add: clean_def)
  qed
qed

lemma raised_step: "fault env a = Some e \<Longrightarrow> raised env a (Suc a) e"
  by (auto simp: raised_def clean_def)

lemma clean_raised:
  assumes "clean env a b" "raised env b c e"
  shows "raised env a c e"
proof -
  from assms(2) have bc: "b < c" and cl: "clean env b (c - 1)" and f: "fault env (c - 1) = Some e"
    by (simp_all add: raised_def)
  from assms(1) have "a \<le> b" by (simp add: clean_def)
  with bc have "a < c" by simp
  moreover have "clean env a (c - 1)" by (rule clean_trans[OF assms(1) cl])
  ultimately show ?thesis using f by (simp add: raised_def)
qed

lemma outcome_Inl [simp]:
  "outcome env st (Inl e, s) = raised env (sdk_calls st) (sdk_calls s) e"
  by (simp add: outcome_def)

lemma outcome_Inr [simp]:
  "outcome env st (Inr u, s) = clean env (sdk_calls st) (sdk_calls s)"
  by (simp add: outcome_def)

lemma from_connection_string_outcome: "outcome env st (from_connection_string env st)"
  by (simp add: from_connection_string_def sdk_call_def clean_step raised_step split: option.splits)

lemma container_exists_outcome: "outcome env st (container_exists env c st)"
  by (simp add: container_exists_def sdk_call_def clean_step raised_step split: option.splits)

lemma create_container_outcome:
  "store st c = None \<Longrightarrow> outcome env st (create_container env c st)"
  by (auto simp: create_container_def sdk_call_def clean_step raised_step split: option.splits)

lemma upload_blob_outcome:
  "store st c \<noteq> None \<Longrightarrow> outcome env st (upload_blob env c b v st)"
  by (auto simp: upload_blob_def sdk_call_def clean_step raised_step split: option.splits)

lemma outcome_bind:
  assumes "outcome env st (r, s)" "r = Inr u" "outcome env s rs"
  shows "outcome env st rs"
proof (cases rs)
  case (Pair r' s')
  from assms(1,2) have c: "clean env (sdk_calls st) (sdk_calls s)" by simp
  show ?thesis
  proof (cases r')
    case (Inl e)
    then show ?thesis using assms(3) Pair clean_raised[OF c] by simp
  next
    case (Inr v)
    then show ?thesis using assms(3) Pair clean_trans[OF c] by simp
  qed
qed

lemma container_exists_result:
  "container_exists env c st = (Inr ex, s) \<Longrightarrow> store s = store st \<and> ex = (store st c \<noteq> None)"
  by (auto simp: container_exists_def sdk_call_def split: option.splits)

lemma from_connection_string_result:
  "from_connection_string env st = (r, s) \<Longrightarrow> store s = store st"
  by (auto simp: from_connection_string_def sdk_call_def split: option.splits)

lemma get_container_client_outcome: "outcome env st (get_container_client env c st)"
proof -
  obtain r1 s1 where f: "from_connection_string env st = (r1, s1)"
    by (cases "from_connection_string env st")
  have o1: "outcome env st (r1, s1)" using from_connection_string_outcome[of env st] f by simp
  show ?thesis
  proof (cases r1)
    case (Inl e)
    then show ?thesis using o1 f by (simp add: get_container_client_def)
  next
    case (Inr u)
    obtain r2 s2 where x: "container_exists env c s1 = (r2, s2)"
      by (cases "container_exists env c s1")
    have o2: "outcome env s1 (r2, s2)" using container_exists_outcome[of env s1 c] x by simp
    have o12: "outcome env st (r2, s2)" by (rule outcome_bind[OF o1 Inr o2])
    show ?thesis
    proof (cases r2)
      case (Inl e)
      then show ?thesis using o12 f x Inr by (simp add: get_container_client_def)
    next
      case (Inr ex)
      note r2 = this
      from container_exists_result[OF x[unfolded r2]]
      have ex: "store s2 = store s1" "ex = (store s1 c \<noteq> None)" by simp_all
      show ?thesis
      proof (cases ex)
        case True
        then show ?thesis using o12 f x \<open>r1 = Inr u\<close> r2 by (simp add: get_container_client_def)
      next
        case False
        then have "store s2 c = None" using ex by simp
        from create_container_outcome[OF this, of env]
        have "outcome env st (create_container env c s2)"
          using outcome_bind[OF o12 r2] by blast
        then show ?thesis using f x \<open>r1 = Inr u\<close> r2 False by (simp add: get_container_client_def)
      qed
    qed
  qed
qed

lemma upload_fake_articles_outcome:
  "store st (ascii ''articles-data'') \<noteq> None \<Longrightarrow>
   outcome env st (upload_fake_articles env is st) \<and>
   (\<forall>u s. upload_fake_articles env is st = (Inr u, s) \<longrightarrow>
      store s = (store st)(ascii ''articles-data'' \<mapsto>
                   fake_blobs env is (blobs st (ascii ''articles-data''))))"
proof (induction "is" arbitrary: st)
  case Nil
  from Nil.prems obtain m where m: "store st (ascii ''articles-data'') = Some m" by blast
  have e: "store st = (store st)(ascii ''articles-data'' \<mapsto>
      fake_blobs env [] (blobs st (ascii ''articles-data'')))"
    unfolding blobs_def fake_blobs_def m by (rule ext) (simp add: m)
  show ?case
  proof (intro conjI allI impI)
    show "outcome env st (upload_fake_articles env [] st)" by (simp add: clean_refl)
  next
    fix u s assume "upload_fake_articles env [] st = (Inr u, s)"
    then have "s = st" by simp
    then show "store s = (store st)(ascii ''articles-data'' \<mapsto>
        fake_blobs env [] (blobs st (ascii ''articles-data'')))"
      using e by blast
  qed
next
  case (Cons i rest)
  let ?c = "ascii ''articles-data''"
  let ?b = "ascii ''fake-article-'' @ digits (i + 1) @ ascii ''.json''"
  let ?v = "json_dumps (float_repr env) True None (fake_article i)"
  obtain r s where u: "upload_blob env ?c ?b ?v st = (r, s)"
    by (cases "upload_blob env ?c ?b ?v st")
  have o: "outcome env st (r, s)" using upload_blob_outcome[OF Cons.prems, of env ?b ?v] u by simp
  show ?case
  proof (cases r)
    case (Inl e)
    then show ?thesis using o u by simp
  next
    case (Inr x)
    from upload_blob_frame(5)[OF u Inr]
    have st: "store s = (store st)(?c \<mapsto> (blobs st ?c)(?b \<mapsto> ?v))" .
    then have ne: "store s ?c \<noteq> None" by simp
    have bs: "blobs s ?c = (blobs st ?c)(?b \<mapsto> ?v)" using st by (simp add: blobs_def)
    from Cons.IH[OF ne]
    have ih1: "outcome env s (upload_fake_articles env rest s)"
      and ih2: "\<forall>u s'. upload_fake_articles env rest s = (Inr u, s') \<longrightarrow>
        store s' = (store s)(?c \<mapsto> fake_blobs env rest (blobs s ?c))"
      by blast+
    have eq: "upload_fake_articles env (i # rest) st = upload_fake_articles env rest s"
      using u Inr by simp
    have "outcome env st (upload_fake_articles env rest s)"
      by (rule outcome_bind[OF o Inr ih1])
    moreover have "\<forall>u s'. upload_fake_articles env rest s = (Inr u, s') \<longrightarrow>
        store s' = (store st)(?c \<mapsto> fake_blobs env (i # rest) (blobs st ?c))"
    proof (intro allI impI)
      fix u s' assume "upload_fake_articles env rest s = (Inr u, s')"
      with ih2 have "store s' = (store s)(?c \<mapsto> fake_blobs env rest (blobs s ?c))" by blast
      also have "\<dots> = (store st)(?c \<mapsto> fake_blobs env (i # rest) (blobs st ?c))"
        unfolding bs st by (simp add: fake_blobs_def fake_blob_name_def)
      finally show "store s' = (store st)(?c \<mapsto> fake_blobs env (i # rest) (blobs st ?c))" .
    qed
    ultimately show ?thesis unfolding eq by blast
  qed
qed

lemma fake_blobs_other:
  "b \<notin> fake_blob_name ` set is \<Longrightarrow> fake_blobs env is m b = m b"
  by (induction "is" arbitrary: m) (auto simp: fake_blobs_def)

lemma fake_blobs_hit:
  "distinct (map fake_blob_name is) \<Longrightarrow> i \<in> set is \<Longrightarrow>
   fake_blobs env is m (fake_blob_name i) = Some (json_dumps (float_repr env) True None (fake_article i))"
proof (induction "is" arbitrary: m)
  case Nil
  then show ?case by simp
next
  case (Cons j rest)
  have step: "fake_blobs env (j # rest) m =
      fake_blobs env rest (m(fake_blob_name j \<mapsto> json_dumps (float_repr env) True None (fake_article j)))"
    by (simp add: fake_blobs_def)
  show ?case
  proof (cases "i \<in> set rest")
    case True
    with Cons show ?thesis unfolding step by simp
  next
    case False
    with Cons.prems have ij: "i = j" and "fake_blob_name j \<notin> fake_blob_name ` set rest" by auto
    then show ?thesis unfolding step by (simp add: fake_blobs_other)
  qed
qed

lemma fake_blob_names:
  "map fake_blob_name [0..<10] =
     [ascii ''fake-article-1.json'', ascii ''fake-article-2.json'', ascii ''fake-article-3.json'',
      ascii ''fake-article-4.json'', ascii ''fake-article-5.json'', ascii ''fake-article-6.json'',
      ascii ''fake-article-7.json'', ascii ''fake-article-8.json'', ascii ''fake-article-9.json'',
      ascii ''fake-article-10.json'']"
  by (simp add: fake_blob_name_def upt_rec digits.simps ascii_def)

lemma fake_blob_names_distinct: "distinct (map fake_blob_name [0..<10])"
  unfolding fake_blob_names by (simp add: ascii_def)

lemma success_body:
  "ascii ''Successfully generated and uploaded '' @ digits 10 @ ascii '' fake articles.'' =
   ascii ''Successfully generated and uploaded 10 fake articles.''"
  by (simp add: digits.simps ascii_def)

lemma generate_fake_articles_cases:
  "(fst (GenerateFakeArticles env st) =
      \<lparr>body = ascii ''Successfully generated and uploaded 10 fake articles.'', status_code = 200\<rparr> \<and>
    clean env (sdk_calls st) (sdk_calls (snd (GenerateFakeArticles env st))) \<and>
    store (snd (GenerateFakeArticles env st)) =
      (store st)(ascii ''articles-data'' \<mapsto>
         fake_blobs env [0..<10] (blobs st (ascii ''articles-data'')))) \<or>
   (\<exists>e. raised env (sdk_calls st) (sdk_calls (snd (GenerateFakeArticles env st))) e \<and>
      fst (GenerateFakeArticles env st) =
        \<lparr>body = ascii ''An error occurred: '' @ e, status_code = 500\<rparr>)"
proof -
  let ?c = "ascii ''articles-data''"
  let ?st0 = "logging INFO st"
  obtain r1 s1 where g: "get_container_client env ?c ?st0 = (r1, s1)"
    by (cases "get_container_client env ?c ?st0")
  have o1: "outcome env ?st0 (r1, s1)" using get_container_client_outcome[of env ?st0 ?c] g by simp
  show ?thesis
  proof (cases r1)
    case (Inl e)
    then have "raised env (sdk_calls st) (sdk_calls s1) e" using o1 by simp
    moreover have "GenerateFakeArticles env st =
        (\<lparr>body = ascii ''An error occurred: '' @ e, status_code = 500\<rparr>, logging ERROR s1)"
      using g Inl by (simp add: GenerateFakeArticles_def)
    ultimately show ?thesis by simp
  next
    case (Inr u)
    have c1: "clean env (sdk_calls st) (sdk_calls s1)" using o1 Inr by simp
    have ne: "store s1 ?c \<noteq> None" by (rule get_container_client_frame(5)[OF g Inr])
    have bl: "blobs s1 ?c = blobs st ?c" using get_container_client_frame(3)[OF g, of ?c] by simp
    have ot: "\<And>c'. c' \<noteq> ?c \<Longrightarrow> store s1 c' = store st c'"
      using get_container_client_frame(4)[OF g] by simp
    obtain r2 s2 where up: "upload_fake_articles env [0..<10] s1 = (r2, s2)"
      by (cases "upload_fake_articles env [0..<10] s1")
    from upload_fake_articles_outcome[OF ne, of env "[0..<10]"] up
    have o2: "outcome env s1 (r2, s2)"
      and st2: "\<forall>u s. (r2, s2) = (Inr u, s) \<longrightarrow>
        store s = (store s1)(?c \<mapsto> fake_blobs env [0..<10] (blobs s1 ?c))"
      by simp_all
    have G: "GenerateFakeArticles env st =
        (case r2 of
           Inl e \<Rightarrow> (\<lparr>body = ascii ''An error occurred: '' @ e, status_code = 500\<rparr>, logging ERROR s2)
         | Inr u \<Rightarrow> (\<lparr>body = ascii ''Successfully generated and uploaded '' @ digits 10 @
                   ascii '' fake articles.'', status_code = 200\<rparr>, logging INFO s2))"
      using g Inr up by (simp add: GenerateFakeArticles_def)
    show ?thesis
    proof (cases r2)
      case (Inl e)
      then have "raised env (sdk_calls st) (sdk_calls s2) e"
        using clean_raised[OF c1] o2 by simp
      then show ?thesis unfolding G using Inl by simp
    next
      case (Inr v)
      then have c2: "clean env (sdk_calls st) (sdk_calls s2)"
        using clean_trans[OF c1] o2 by simp
      from st2 Inr have "store s2 = (store s1)(?c \<mapsto> fake_blobs env [0..<10] (blobs s1 ?c))"
        by simp
      also have "\<dots> = (store st)(?c \<mapsto> fake_blobs env [0..<10] (blobs st ?c))"
        unfolding bl using ot by (auto simp: fun_eq_iff)
      finally have s: "store s2 = (store st)(?c \<mapsto> fake_blobs env [0..<10] (blobs st ?c))" .
      show ?thesis unfolding G using Inr c2 s by (simp add: success_body)
    qed
  qed
qed

lemma no_fault_not_raised: "fault env = (\<lambda>k. None) \<Longrightarrow> \<not> raised env a b e"
  by (simp add: raised_def)

text \<open>
  C9.  An invocation of \<open>GenerateFakeArticles\<close> either answers 200 with the text
  \<open>Successfully generated and uploaded 10 fake articles.\<close>, no storage call having raised,
  and leaves the container \<open>articles-data\<close> with the ten uploads made on top of what it
  held; or a storage call raised and it answers 500 with \<open>An error occurred: \<close> followed
  by the text of that exception.  On working storage it answers 200.  Whenever a storage
  call made during the invocation raises, the answer is 500 with the text of that call's
  exception.  The ten uploads leave, under each of the names \<open>fake-article-1.json\<close> to
  \<open>fake-article-10.json\<close>, the JSON text of the fake article of that number, and leave
  every blob of another name as it was.
\<close>

theorem generate_fake_articles_response:
  \<open>((fst (GenerateFakeArticles env st) =
       \<lparr>body = ascii ''Successfully generated and uploaded 10 fake articles.'', status_code = 200\<rparr> \<and>
     clean env (sdk_calls st) (sdk_calls (snd (GenerateFakeArticles env st))) \<and>
     store (snd (GenerateFakeArticles env st)) =
       (store st)(ascii ''articles-data'' \<mapsto>
          fake_blobs env [0..<10] (blobs st (ascii ''articles-data'')))) \<or>
    (\<exists>e. raised env (sdk_calls st) (sdk_calls (snd (GenerateFakeArticles env st))) e \<and>
       fst (GenerateFakeArticles env st) =
         \<lparr>body = ascii ''An error occurred: '' @ e, status_code = 500\<rparr>)) \<and>
   (fault env = (\<lambda>k. None) \<longrightarrow>
      fst (GenerateFakeArticles env st) =
        \<lparr>body = ascii ''Successfully generated and uploaded 10 fake articles.'', status_code = 200\<rparr> \<and>
      store (snd (GenerateFakeArticles env st)) =
        (store st)(ascii ''articles-data'' \<mapsto>
           fake_blobs env [0..<10] (blobs st (ascii ''articles-data'')))) \<and>
   (sdk_calls st \<le> k \<and> k < sdk_calls (snd (GenerateFakeArticles env st)) \<and>
    fault env k = Some e' \<longrightarrow>
      fst (GenerateFakeArticles env st) =
        \<lparr>body = ascii ''An error occurred: '' @ e', status_code = 500\<rparr>) \<and>
   (\<forall>i<10. fake_blobs env [0..<10] m (fake_blob_name i) =
      Some (ascii ''{"title": "Fake Article '' @ digits (i + 1) @
            ascii ''", "content": "This is a generated fake article for scalability testing purposes.", "url": "https://fakeurl.com/article-'' @
            digits (i + 1) @ ascii ''"}'')) \<and>
   (\<forall>b. b \<notin> set (map fake_blob_name [0..<10]) \<longrightarrow> fake_blobs env [0..<10] m b = m b) \<and>
   map fake_blob_name [0..<10] =
     [ascii ''fake-article-1.json'', ascii ''fake-article-2.json'', ascii ''fake-article-3.json'',
      ascii ''fake-article-4.json'', ascii ''fake-article-5.json'', ascii ''fake-article-6.json'',
      ascii ''fake-article-7.json'', ascii ''fake-article-8.json'', ascii ''fake-article-9.json'',
      ascii ''fake-article-10.json'']\<close>
proof (intro conjI allI impI)
  show "(fst (GenerateFakeArticles env st) =
       \<lparr>body = ascii ''Successfully generated and uploaded 10 fake articles.'', status_code = 200\<rparr> \<and>
     clean env (sdk_calls st) (sdk_calls (snd (GenerateFakeArticles env st))) \<and>
     store (snd (GenerateFakeArticles env st)) =
       (store st)(ascii ''articles-data'' \<mapsto>
          fake_blobs env [0..<10] (blobs st (ascii ''articles-data'')))) \<or>
    (\<exists>e. raised env (sdk_calls st) (sdk_calls (snd (GenerateFakeArticles env st))) e \<and>
       fst (GenerateFakeArticles env st) =
         \<lparr>body = ascii ''An error occurred: '' @ e, status_code = 500\<rparr>)"
    by (rule generate_fake_articles_cases)
next
  assume nf: "fault env = (\<lambda>k. None)"
  from generate_fake_articles_cases[of env st] no_fault_not_raised[OF nf]
  have ok: "fst (GenerateFakeArticles env st) =
       \<lparr>body = ascii ''Successfully generated and uploaded 10 fake articles.'', status_code = 200\<rparr> \<and>
     store (snd (GenerateFakeArticles env st)) =
       (store st)(ascii ''articles-data'' \<mapsto>
          fake_blobs env [0..<10] (blobs st (ascii ''articles-data'')))"
    by blast
  from ok show "fst (GenerateFakeArticles env st) =
       \<lparr>body = ascii ''Successfully generated and uploaded 10 fake articles.'', status_code = 200\<rparr>"
    by (rule conjunct1)
  from ok show "store (snd (GenerateFakeArticles env st)) =
       (store st)(ascii ''articles-data'' \<mapsto>
          fake_blobs env [0..<10] (blobs st (ascii ''articles-data'')))"
    by (rule conjunct2)
next
  let ?n = "sdk_calls (snd (GenerateFakeArticles env st))"
  assume a: "sdk_calls st \<le> k \<and> k < ?n \<and> fault env k = Some e'"
  from generate_fake_articles_cases[of env st]
  show "fst (GenerateFakeArticles env st) =
        \<lparr>body = ascii ''An error occurred: '' @ e', status_code = 500\<rparr>"
  proof
    assume "fst (GenerateFakeArticles env st) =
       \<lparr>body = ascii ''Successfully generated and uploaded 10 fake articles.'', status_code = 200\<rparr> \<and>
     clean env (sdk_calls st) ?n \<and>
     store (snd (GenerateFakeArticles env st)) =
       (store st)(ascii ''articles-data'' \<mapsto>
          fake_blobs env [0..<10] (blobs st (ascii ''articles-data'')))"
    then have "clean env (sdk_calls st) ?n" by blast
    with a have False by (auto simp: clean_def)
    then show ?thesis ..
  next
    assume "\<exists>e. raised env (sdk_calls st) ?n e \<and>
       fst (GenerateFakeArticles env st) =
         \<lparr>body = ascii ''An error occurred: '' @ e, status_code = 500\<rparr>"
    then obtain e where r: "raised env (sdk_calls st) ?n e"
      and f: "fst (GenerateFakeArticles env st) =
         \<lparr>body = ascii ''An error occurred: '' @ e, status_code = 500\<rparr>" by blast
    from r have cl: "clean env (sdk_calls st) (?n - 1)" and fe: "fault env (?n - 1) = Some e"
      by (simp_all add: raised_def)
    have "\<not> k < ?n - 1" using cl a by (auto simp: clean_def)
    with a have "k = ?n - 1" by linarith
    with fe a have "e = e'" by simp
    with f show ?thesis by simp
  qed
next
  fix i :: nat assume "i < 10"
  then have "i \<in> set [0..<10]" by simp
  from fake_blobs_hit[OF fake_blob_names_distinct this, of env m]
  show \<open>fake_blobs env [0..<10] m (fake_blob_name i) =
      Some (ascii ''{"title": "Fake Article '' @ digits (i + 1) @
            ascii ''", "content": "This is a generated fake article for scalability testing purposes.", "url": "https://fakeurl.com/article-'' @
            digits (i + 1) @ ascii ''"}'')\<close>
    by (simp only: fake_article_dump)
next
  fix b assume "b \<notin> set (map fake_blob_name [0..<10])"
  then have "b \<notin> fake_blob_name ` set [0..<10]" by simp
  then show "fake_blobs env [0..<10] m b = m b" by (rule fake_blobs_other)
next
  show "map fake_blob_name [0..<10] =
     [ascii ''fake-article-1.json'', ascii ''fake-article-2.json'', ascii ''fake-article-3.json'',
      ascii ''fake-article-4.json'', ascii ''fake-article-5.json'', ascii ''fake-article-6.json'',
      ascii ''fake-article-7.json'', ascii ''fake-article-8.json'', ascii ''fake-article-9.json'',
      ascii ''fake-article-10.json'']"
    by (rule fake_blob_names)
qed

lemma boom_calls: "sdk_calls (snd (GenerateFakeArticles boom_env empty_state)) = 6"
  by (simp add: GenerateFakeArticles_def get_container_client_def from_connection_string_def
      container_exists_def create_container_def upload_blob_def sdk_call_def logging_def
      boom_env_def quiet_env_def empty_state_def upt_rec)

theorem generate_fake_articles_response_witness:
  \<open>fst (GenerateFakeArticles quiet_env empty_state) =
     \<lparr>body = ascii ''Successfully generated and uploaded 10 fake articles.'', status_code = 200\<rparr> \<and>
   blobs (snd (GenerateFakeArticles quiet_env empty_state)) (ascii ''articles-data'')
     (ascii ''fake-article-1.json'') =
     Some (ascii ''{"title": "Fake Article 1", "content": "This is a generated fake article for scalability testing purposes.", "url": "https://fakeurl.com/article-1"}'') \<and>
   blobs (snd (GenerateFakeArticles quiet_env empty_state)) (ascii ''articles-data'')
     (ascii ''fake-article-10.json'') =
     Some (ascii ''{"title": "Fake Article 10", "content": "This is a generated fake article for scalability testing purposes.", "url": "https://fakeurl.com/article-10"}'') \<and>
   blobs (snd (GenerateFakeArticles quiet_env empty_state)) (ascii ''articles-data'')
     (ascii ''fake-article-11.json'') = None \<and>
   fst (GenerateFakeArticles boom_env empty_state) =
     \<lparr>body = ascii ''An error occurred: boom'', status_code = 500\<rparr>\<close>
proof -
  let ?c = "ascii ''articles-data''"
  let ?G = "GenerateFakeArticles quiet_env empty_state"
  let ?m = "blobs empty_state ?c"
  note T = generate_fake_articles_response[of quiet_env empty_state 5 "ascii ''boom''" ?m]
  note B = generate_fake_articles_response[of boom_env empty_state 5 "ascii ''boom''" ?m]
  have nf: "fault quiet_env = (\<lambda>k. None)" by (simp add: quiet_env_def)
  from T nf have r: "fst ?G =
     \<lparr>body = ascii ''Successfully generated and uploaded 10 fake articles.'', status_code = 200\<rparr>"
    and s: "store (snd ?G) = (store empty_state)(?c \<mapsto> fake_blobs quiet_env [0..<10] ?m)"
    by blast+
  have bl: "blobs (snd ?G) ?c = fake_blobs quiet_env [0..<10] ?m"
    using s by (simp add: blobs_def)
  have m: "?m = Map.empty" by (simp add: blobs_def empty_state_def)
  have n0: "fake_blob_name 0 = ascii ''fake-article-1.json''"
    and n9: "fake_blob_name 9 = ascii ''fake-article-10.json''"
    by (simp_all add: fake_blob_name_def digits.simps ascii_def)
  have d: "digits (0 + 1) = ascii ''1''" "digits (9 + 1) = ascii ''10''"
    by (simp_all add: digits.simps ascii_def)
  from T have hit: \<open>\<forall>i<10. fake_blobs quiet_env [0..<10] ?m (fake_blob_name i) =
      Some (ascii ''{"title": "Fake Article '' @ digits (i + 1) @
            ascii ''", "content": "This is a generated fake article for scalability testing purposes.", "url": "https://fakeurl.com/article-'' @
            digits (i + 1) @ ascii ''"}'')\<close>
    by blast
  from hit[THEN spec, of 0] have b1: \<open>blobs (snd ?G) ?c (ascii ''fake-article-1.json'') =
     Some (ascii ''{"title": "Fake Article 1", "content": "This is a generated fake article for scalability testing purposes.", "url": "https://fakeurl.com/article-1"}'')\<close>
    unfolding bl n0 d by (simp add: ascii_def)
  from hit[THEN spec, of 9] have b10: \<open>blobs (snd ?G) ?c (ascii ''fake-article-10.json'') =
     Some (ascii ''{"title": "Fake Article 10", "content": "This is a generated fake article for scalability testing purposes.", "url": "https://fakeurl.com/article-10"}'')\<close>
    unfolding bl n9 d by (simp add: ascii_def)
  from T have names: "map fake_blob_name [0..<10] =
     [ascii ''fake-article-1.json'', ascii ''fake-article-2.json'', ascii ''fake-article-3.json'',
      ascii ''fake-article-4.json'', ascii ''fake-article-5.json'', ascii ''fake-article-6.json'',
      ascii ''fake-article-7.json'', ascii ''fake-article-8.json'', ascii ''fake-article-9.json'',
      ascii ''fake-article-10.json'']"
    and other: "\<forall>b. b \<notin> set (map fake_blob_name [0..<10]) \<longrightarrow>
      fake_blobs quiet_env [0..<10] ?m b = ?m b"
    by blast+
  have "ascii ''fake-article-11.json'' \<notin> set (map fake_blob_name [0..<10])"
    unfolding names by (simp add: ascii_def)
  with other have b11: "blobs (snd ?G) ?c (ascii ''fake-article-11.json'') = None"
    unfolding bl using m by simp
  have h: "sdk_calls empty_state \<le> 5 \<and>
      5 < sdk_calls (snd (GenerateFakeArticles boom_env empty_state)) \<and>
      fault boom_env 5 = Some (ascii ''boom'')"
    unfolding boom_calls by (simp add: boom_env_def empty_state_def)
  from B h have "fst (GenerateFakeArticles boom_env empty_state) =
        \<lparr>body = ascii ''An error occurred: '' @ ascii ''boom'', status_code = 500\<rparr>"
    by blast
  then have e: "fst (GenerateFakeArticles boom_env empty_state) =
     \<lparr>body = ascii ''An error occurred: boom'', status_code = 500\<rparr>"
    by (simp add: ascii_def)
  from r b1 b10 b11 e show ?thesis by (intro conjI)
qed


end
